theory Spec2Isabelle
  imports Complex_Main "HOL-Library.Sublist"
begin

section \<open>Text\<close>

text \<open>
  Python strings are modelled as \<^typ>\<open>string\<close>, one \<^typ>\<open>char\<close> per code point, so the
  model covers text over the code points below 256. The character classes are those of
  CPython for that block: \<open>str.isspace\<close> (also the regex class \<open>\s\<close>), \<open>str.isalnum\<close>
  (the regex class \<open>\w\<close> is \<open>isalnum\<close> or the underscore) and \<open>str.lower\<close>.
\<close>

definition code_point :: "char \<Rightarrow> nat" where
  "code_point c = of_char c"

definition is_space :: "char \<Rightarrow> bool" where
  "is_space c = (let n = code_point c in
     (9 \<le> n \<and> n \<le> 13) \<or> (28 \<le> n \<and> n \<le> 32) \<or> n = 133 \<or> n = 160)"

definition is_alnum :: "char \<Rightarrow> bool" where
  "is_alnum c = (let n = code_point c in
     (48 \<le> n \<and> n \<le> 57) \<or> (65 \<le> n \<and> n \<le> 90) \<or> (97 \<le> n \<and> n \<le> 122) \<or>
     n = 170 \<or> n = 178 \<or> n = 179 \<or> n = 181 \<or> n = 185 \<or> n = 186 \<or>
     (188 \<le> n \<and> n \<le> 190) \<or> (192 \<le> n \<and> n \<le> 214) \<or>
     (216 \<le> n \<and> n \<le> 246) \<or> (248 \<le> n \<and> n \<le> 255))"

definition is_word :: "char \<Rightarrow> bool" where
  "is_word c = (is_alnum c \<or> c = CHR ''_'')"

definition is_upper :: "char \<Rightarrow> bool" where
  "is_upper c = (let n = code_point c in
     (65 \<le> n \<and> n \<le> 90) \<or> (192 \<le> n \<and> n \<le> 222 \<and> n \<noteq> 215))"

text \<open>Every upper-case letter of the block lies 32 below its lower-case letter: bit 5 is set.\<close>

definition py_lower :: "char \<Rightarrow> char" where
  "py_lower c = (if is_upper c
     then (case c of Char b0 b1 b2 b3 b4 b5 b6 b7 \<Rightarrow> Char b0 b1 b2 b3 b4 True b6 b7)
     else c)"

definition lower :: "string \<Rightarrow> string" where
  "lower s = map py_lower s"

definition strip :: "string \<Rightarrow> string" where
  "strip s = rev (dropWhile is_space (rev (dropWhile is_space s)))"

text \<open>
  \<open>str.replace(pat, rep)\<close> with a literal, non-empty pattern: the occurrences are replaced
  from left to right and do not overlap. The source only uses non-empty patterns; on the
  empty pattern the model leaves the text as it is.
\<close>

function replace_lit :: "string \<Rightarrow> string \<Rightarrow> string \<Rightarrow> string" where
  "replace_lit pat rep [] = []"
| "replace_lit pat rep (c # cs) =
     (if pat \<noteq> [] \<and> prefix pat (c # cs)
      then rep @ replace_lit pat rep (drop (length pat) (c # cs))
      else c # replace_lit pat rep cs)"
  by pat_completeness auto
termination
  by (relation "measure (\<lambda>(pat, rep, s). length s)") auto

text \<open>
  \<open>re.sub(cls, rep, s)\<close> for a pattern that is one character class: the text is scanned
  from the left, a character of the class is replaced by \<open>rep\<close>, any other is copied.
\<close>

fun re_sub_class :: "(char \<Rightarrow> bool) \<Rightarrow> string \<Rightarrow> string \<Rightarrow> string" where
  "re_sub_class cls rep [] = []"
| "re_sub_class cls rep (c # cs) =
     (if cls c then rep @ re_sub_class cls rep cs else c # re_sub_class cls rep cs)"

text \<open>The class \<open>[^\w\s.,!?]\<close> of \<open>clean_data\<close>.\<close>

definition not_allowed :: "char \<Rightarrow> bool" where
  "not_allowed c = (\<not> (is_word c \<or> is_space c \<or> c \<in> set ''.,!?''))"

section \<open>Cells, rows and frames\<close>

text \<open>
  A float is modelled by the real number it denotes, or an infinity; comparisons of floats
  are exact, and the program does no arithmetic on them. The missing value (\<open>NaN\<close>, \<open>NaT\<close>,
  \<open>None\<close>) is the cell \<open>Null\<close>. A timestamp is its number of nanoseconds since the epoch.
\<close>

datatype fnum = Fin real | PosInf | NegInf

fun fle :: "fnum \<Rightarrow> fnum \<Rightarrow> bool" where
  "fle NegInf y = True"
| "fle x PosInf = True"
| "fle (Fin a) (Fin b) = (a \<le> b)"
| "fle x y = False"

datatype cell = Null | Str string | Num fnum | Time int

type_synonym row = "string \<Rightarrow> cell"

text \<open>
  A \<open>DataFrame\<close>: the column labels, and the rows in order, each with its index label and
  its cells by column label. Frames whose column labels repeat are outside the model.
\<close>

record dataframe =
  columns :: "string list"
  rows :: "(nat \<times> row) list"

datatype error =
    KeyError "string list"
  | NameError string
  | FileNotFoundError
  | OSError string
  | ReError string
  | NotModelled string

text \<open>
  The parsers of pandas and Python are not part of the repository: they are parameters.
  \<open>parse_datetime col c\<close> is what \<open>pd.to_datetime(col, errors='coerce')\<close> gives for the
  element \<open>c\<close> of the column \<open>col\<close> (the format is inferred from the column),
  \<open>parse_numeric c\<close> what \<open>pd.to_numeric(_, errors='coerce')\<close> gives for \<open>c\<close>, and
  \<open>py_str c\<close> is \<open>str(c)\<close>; \<open>None\<close> is the coerced failure.
\<close>

record pandas_ext =
  parse_datetime :: "cell list \<Rightarrow> cell \<Rightarrow> int option"
  parse_numeric :: "cell \<Rightarrow> fnum option"
  py_str :: "cell \<Rightarrow> string"

definition to_datetime :: "pandas_ext \<Rightarrow> cell list \<Rightarrow> cell \<Rightarrow> cell" where
  "to_datetime P col c =
     (case c of
        Null \<Rightarrow> Null
      | Time t \<Rightarrow> Time t
      | _ \<Rightarrow> (case parse_datetime P col c of None \<Rightarrow> Null | Some t \<Rightarrow> Time t))"

definition to_numeric :: "pandas_ext \<Rightarrow> cell \<Rightarrow> cell" where
  "to_numeric P c =
     (case c of
        Null \<Rightarrow> Null
      | Num x \<Rightarrow> Num x
      | _ \<Rightarrow> (case parse_numeric P c of None \<Rightarrow> Null | Some x \<Rightarrow> Num x))"

definition day_ns :: int where
  "day_ns = 86400000000000"

definition dt_normalize :: "cell \<Rightarrow> cell" where
  "dt_normalize c = (case c of Time t \<Rightarrow> Time (t - t mod day_ns) | _ \<Rightarrow> Null)"

definition fillna :: "cell \<Rightarrow> cell \<Rightarrow> cell" where
  "fillna v c = (if c = Null then v else c)"

text \<open>The \<open>.str\<close> methods give the missing value on an element that is not a string.\<close>

definition str_apply :: "(string \<Rightarrow> string) \<Rightarrow> cell \<Rightarrow> cell" where
  "str_apply f c = (case c of Str s \<Rightarrow> Str (f s) | _ \<Rightarrow> Null)"

definition to_text :: "pandas_ext \<Rightarrow> cell \<Rightarrow> string" where
  "to_text P c = (case c of Str s \<Rightarrow> s | _ \<Rightarrow> py_str P c)"

definition ge_num :: "cell \<Rightarrow> real \<Rightarrow> bool" where
  "ge_num c b = (case c of Num x \<Rightarrow> fle (Fin b) x | _ \<Rightarrow> False)"

definition le_num :: "cell \<Rightarrow> real \<Rightarrow> bool" where
  "le_num c b = (case c of Num x \<Rightarrow> fle x (Fin b) | _ \<Rightarrow> False)"

subsection \<open>Frame operations\<close>

definition column :: "dataframe \<Rightarrow> string \<Rightarrow> cell list" where
  "column df name = map (\<lambda>(i, r). r name) (rows df)"

text \<open>\<open>df[name] = values\<close>, the values computed element by element from the row.\<close>

definition assign :: "string \<Rightarrow> (row \<Rightarrow> cell) \<Rightarrow> dataframe \<Rightarrow> dataframe" where
  "assign name f df =
     df\<lparr>columns := (if name \<in> set (columns df) then columns df else columns df @ [name]),
        rows := map (\<lambda>(i, r). (i, r(name := f r))) (rows df)\<rparr>"

definition dropna :: "string list \<Rightarrow> dataframe \<Rightarrow> dataframe" where
  "dropna names df = df\<lparr>rows := filter (\<lambda>(i, r). \<forall>k \<in> set names. r k \<noteq> Null) (rows df)\<rparr>"

text \<open>\<open>df[mask]\<close>, the mask computed element by element from the row.\<close>

definition select_rows :: "(row \<Rightarrow> bool) \<Rightarrow> dataframe \<Rightarrow> dataframe" where
  "select_rows p df = df\<lparr>rows := filter (\<lambda>(i, r). p r) (rows df)\<rparr>"

text \<open>
  \<open>drop_duplicates\<close> keeps the first row of each key: the rows are visited in order with
  the keys seen so far.
\<close>

fun drop_seen :: "'k list \<Rightarrow> ('a \<Rightarrow> 'k) \<Rightarrow> 'a list \<Rightarrow> 'a list" where
  "drop_seen seen key [] = []"
| "drop_seen seen key (x # xs) =
     (if key x \<in> set seen then drop_seen seen key xs
      else x # drop_seen (key x # seen) key xs)"

definition drop_duplicates :: "string list \<Rightarrow> dataframe \<Rightarrow> dataframe" where
  "drop_duplicates names df =
     df\<lparr>rows := drop_seen [] (\<lambda>(i, r). map r names) (rows df)\<rparr>"

text \<open>\<open>df[[names]]\<close>: a \<open>KeyError\<close> that lists the absent labels, or the frame of these columns.\<close>

definition select_columns :: "string list \<Rightarrow> dataframe \<Rightarrow> error + dataframe" where
  "select_columns names df =
     (if \<forall>k \<in> set names. k \<in> set (columns df)
      then Inr \<lparr>columns = names,
                rows = map (\<lambda>(i, r). (i, \<lambda>k. if k \<in> set names then r k else Null)) (rows df)\<rparr>
      else Inl (KeyError (filter (\<lambda>k. k \<notin> set (columns df)) names)))"

definition and_then :: "error + 'a \<Rightarrow> ('a \<Rightarrow> error + 'b) \<Rightarrow> error + 'b" where
  "and_then m f = (case m of Inl e \<Rightarrow> Inl e | Inr x \<Rightarrow> f x)"

text \<open>\<open>df[name]\<close> raises \<open>KeyError\<close> when the frame has no such column.\<close>

definition require :: "string \<Rightarrow> dataframe \<Rightarrow> error + dataframe" where
  "require name df = (if name \<in> set (columns df) then Inr df else Inl (KeyError [name]))"

section \<open>The normalizer: \<open>clean_data\<close> of \<open>data_processor.py\<close>\<close>

text \<open>Line 19: the header is trimmed and lower-cased, spaces become underscores, parentheses go.\<close>

definition canon_header :: "string \<Rightarrow> string" where
  "canon_header h =
     filter (\<lambda>c. c \<noteq> CHR '')'')
       (filter (\<lambda>c. c \<noteq> CHR ''('')
         (map (\<lambda>c. if c = CHR '' '' then CHR ''_'' else c) (lower (strip h))))"

text \<open>Line 20: the renaming dictionary.\<close>

definition rename_header :: "string \<Rightarrow> string" where
  "rename_header h =
     (if h = ''duration_seconds'' then ''duration_s''
      else if h = ''duration_hours/min'' then ''duration_h_m''
      else if h = ''comments'' then ''description''
      else if h = ''date_posted'' then ''date_posted_str''
      else h)"

definition new_label :: "string \<Rightarrow> string" where
  "new_label h = rename_header (canon_header h)"

definition rename_columns :: "dataframe \<Rightarrow> dataframe" where
  "rename_columns df =
     \<lparr>columns = map new_label (columns df),
      rows = map (\<lambda>(i, r). (i, \<lambda>k. case find (\<lambda>h. new_label h = k) (columns df) of
                                       Some h \<Rightarrow> r h | None \<Rightarrow> Null)) (rows df)\<rparr>"

text \<open>Lines 24 to 26.\<close>

definition stage_datetime :: "pandas_ext \<Rightarrow> dataframe \<Rightarrow> error + dataframe" where
  "stage_datetime P df =
     and_then (require ''datetime'' df) (\<lambda>df.
       let col = column df ''datetime'';
           df = assign ''datetime'' (\<lambda>r. to_datetime P col (r ''datetime'')) df;
           df = assign ''date'' (\<lambda>r. dt_normalize (r ''datetime'')) df
       in Inr (dropna [''datetime''] df))"

text \<open>Lines 29 to 35.\<close>

definition stage_coordinates :: "pandas_ext \<Rightarrow> dataframe \<Rightarrow> error + dataframe" where
  "stage_coordinates P df =
     and_then (require ''latitude'' df) (\<lambda>df.
       let df = assign ''latitude'' (\<lambda>r. to_numeric P (r ''latitude'')) df in
       and_then (require ''longitude'' df) (\<lambda>df.
         let df = assign ''longitude'' (\<lambda>r. to_numeric P (r ''longitude'')) df;
             df = dropna [''latitude'', ''longitude''] df;
             df = select_rows (\<lambda>r. ge_num (r ''latitude'') (- 90) \<and> le_num (r ''latitude'') 90) df;
             df = select_rows (\<lambda>r. ge_num (r ''longitude'') (- 180) \<and> le_num (r ''longitude'') 180) df
         in Inr df))"

text \<open>Line 38.\<close>

definition clean_shape :: "cell \<Rightarrow> cell" where
  "clean_shape c = str_apply strip (str_apply lower (fillna (Str ''unknown'') c))"

definition stage_shape :: "dataframe \<Rightarrow> error + dataframe" where
  "stage_shape df =
     and_then (require ''shape'' df) (\<lambda>df.
       Inr (assign ''shape'' (\<lambda>r. clean_shape (r ''shape'')) df))"

text \<open>Line 41, the function applied to each description, and line 42, the three replacements.\<close>

definition strip_markup :: "pandas_ext \<Rightarrow> cell \<Rightarrow> cell" where
  "strip_markup P c = Str (re_sub_class not_allowed [] (strip (to_text P (fillna (Str []) c))))"

definition decode_entities :: "cell \<Rightarrow> cell" where
  "decode_entities c =
     str_apply (replace_lit ''&#33;'' ''!'')
       (str_apply (replace_lit ''&quot;'' [CHR 0x22])
         (str_apply (replace_lit ''&#44'' '','') c))"

definition clean_description :: "pandas_ext \<Rightarrow> cell \<Rightarrow> cell" where
  "clean_description P c = decode_entities (strip_markup P c)"

definition stage_description :: "pandas_ext \<Rightarrow> dataframe \<Rightarrow> error + dataframe" where
  "stage_description P df =
     and_then (require ''description'' df) (\<lambda>df.
       let df = assign ''description'' (\<lambda>r. strip_markup P (r ''description'')) df;
           df = assign ''description'' (\<lambda>r. decode_entities (r ''description'')) df
       in Inr df)"

text \<open>Line 45.\<close>

definition clean_duration :: "pandas_ext \<Rightarrow> cell \<Rightarrow> cell" where
  "clean_duration P c = fillna (Num (Fin 0)) (to_numeric P c)"

definition stage_duration :: "pandas_ext \<Rightarrow> dataframe \<Rightarrow> error + dataframe" where
  "stage_duration P df =
     and_then (require ''duration_s'' df) (\<lambda>df.
       Inr (assign ''duration_s'' (\<lambda>r. clean_duration P (r ''duration_s'')) df))"

text \<open>Lines 48 to 51.\<close>

definition stage_date_posted :: "pandas_ext \<Rightarrow> dataframe \<Rightarrow> dataframe" where
  "stage_date_posted P df =
     (if ''date_posted_str'' \<in> set (columns df)
      then (let col = column df ''date_posted_str''
            in assign ''date_posted'' (\<lambda>r. to_datetime P col (r ''date_posted_str'')) df)
      else assign ''date_posted'' (\<lambda>r. Null) df)"

definition dedup_key :: "string list" where
  "dedup_key = [''datetime'', ''latitude'', ''longitude'', ''description'']"

definition cleaned_columns :: "string list" where
  "cleaned_columns = [''datetime'', ''date'', ''city'', ''state'', ''country'', ''shape'',
     ''duration_s'', ''description'', ''latitude'', ''longitude'', ''date_posted'']"

text \<open>Lines 19 to 51: every step before the removal of duplicates.\<close>

definition normalize_steps :: "pandas_ext \<Rightarrow> dataframe \<Rightarrow> error + dataframe" where
  "normalize_steps P df =
     and_then (stage_datetime P (rename_columns df)) (\<lambda>df.
     and_then (stage_coordinates P df) (\<lambda>df.
     and_then (stage_shape df) (\<lambda>df.
     and_then (stage_description P df) (\<lambda>df.
     and_then (stage_duration P df) (\<lambda>df.
     Inr (stage_date_posted P df))))))"

text \<open>
  \<open>clean_data\<close>. Its last statement before \<open>return\<close> prints \<open>len(raw_df)\<close>: \<open>raw_df\<close> is not a
  parameter or a local of the function, so the name is looked up among the globals of the
  module, here \<open>None\<close> when the module has no such global. The printed text itself is not
  modelled.
\<close>

definition clean_data :: "pandas_ext \<Rightarrow> dataframe option \<Rightarrow> dataframe \<Rightarrow> error + dataframe" where
  "clean_data P raw_df df =
     and_then (normalize_steps P df) (\<lambda>df.
     and_then (select_columns cleaned_columns (drop_duplicates dedup_key df)) (\<lambda>cleaned_df.
       case raw_df of
         None \<Rightarrow> Inl (NameError ''raw_df'')
       | Some g \<Rightarrow> Inr cleaned_df))"

text \<open>
  An instance of the external parsers for evaluating the model on concrete frames: it
  answers from three tables, which list what pandas and Python return on the cells of the
  frame at hand.
\<close>

definition table_ext ::
  "(cell \<times> int) list \<Rightarrow> (cell \<times> fnum) list \<Rightarrow> (cell \<times> string) list \<Rightarrow> pandas_ext" where
  "table_ext dts nums strs =
     \<lparr>parse_datetime = (\<lambda>col c. map_of dts c),
      parse_numeric = (\<lambda>c. map_of nums c),
      py_str = (\<lambda>c. case map_of strs c of Some s \<Rightarrow> s | None \<Rightarrow> [])\<rparr>"

section \<open>The batch run: \<open>__main__\<close> of \<open>data_processor.py\<close>\<close>

text \<open>
  The two outputs of the run: the cleaned export file and the \<open>sightings\<close> table, each
  absent or holding a frame.
\<close>

record world =
  cleaned_csv :: "dataframe option"
  sightings :: "dataframe option"

text \<open>
  The file system and the database are outside the repository: \<open>read_csv\<close> is the outcome
  of \<open>pd.read_csv(csv_path)\<close>; \<open>to_csv\<close> and \<open>to_sql\<close> take the frame and the world and give
  the world they leave, with the exception they raise, if any (\<open>to_sql\<close> stands for the
  whole of \<open>create_sqlite_db\<close>: connect, write the table, close).
\<close>

record io_env =
  read_csv :: "error + dataframe"
  to_csv :: "dataframe \<Rightarrow> world \<Rightarrow> world \<times> error option"
  to_sql :: "dataframe \<Rightarrow> world \<Rightarrow> world \<times> error option"

datatype outcome = Completed | NotFoundReported | ErrorReported error

text \<open>The two \<open>except\<close> clauses of lines 94 to 97.\<close>

definition report :: "error \<Rightarrow> outcome" where
  "report e = (if e = FileNotFoundError then NotFoundReported else ErrorReported e)"

definition create_sqlite_db :: "io_env \<Rightarrow> dataframe \<Rightarrow> world \<Rightarrow> world \<times> error option" where
  "create_sqlite_db io df w = to_sql io df w"

text \<open>Lines 78 to 97; \<open>raw_df\<close> is a global of the module once line 80 has run.\<close>

definition main :: "pandas_ext \<Rightarrow> io_env \<Rightarrow> world \<Rightarrow> world \<times> outcome" where
  "main P io w =
     (case read_csv io of
        Inl e \<Rightarrow> (w, report e)
      | Inr raw_df \<Rightarrow>
          (case clean_data P (Some raw_df) raw_df of
             Inl e \<Rightarrow> (w, report e)
           | Inr cleaned_df \<Rightarrow>
               (case to_csv io cleaned_df w of
                  (w1, Some e) \<Rightarrow> (w1, report e)
                | (w1, None) \<Rightarrow>
                    (case create_sqlite_db io cleaned_df w1 of
                       (w2, Some e) \<Rightarrow> (w2, report e)
                     | (w2, None) \<Rightarrow> (w2, Completed)))))"

section \<open>The keyword criterion of \<open>app.py\<close>\<close>

text \<open>
  Lines 90 to 92: \<open>str.contains(keyword, case=False, na=False)\<close>. The call does not pass
  \<open>regex=False\<close>, so pandas compiles the keyword as a regular expression (with
  \<open>re.IGNORECASE\<close>) and searches each description with it; a missing description counts as
  no match. The regex engine is a parameter: \<open>compile\<close> gives the exception of
  \<open>re.compile\<close> or the search predicate of the compiled pattern.
\<close>

definition str_contains :: "(string \<Rightarrow> bool) \<Rightarrow> cell \<Rightarrow> bool" where
  "str_contains search c = (case c of Str s \<Rightarrow> search s | _ \<Rightarrow> False)"

definition keyword_filter ::
  "(string \<Rightarrow> error + (string \<Rightarrow> bool)) \<Rightarrow> string \<Rightarrow> dataframe \<Rightarrow> error + dataframe" where
  "keyword_filter compile keyword filtered_df =
     (if keyword = [] then Inr filtered_df
      else and_then (require ''description'' filtered_df) (\<lambda>df.
           and_then (compile keyword) (\<lambda>search.
             Inr (select_rows (\<lambda>r. str_contains search (r ''description'')) df))))"

text \<open>
  What the specification asks for: the keyword occurs in the description as a literal
  substring, letter case ignored.
\<close>

fun contains_literal :: "string \<Rightarrow> string \<Rightarrow> bool" where
  "contains_literal k [] = (k = [])"
| "contains_literal k (c # cs) = (prefix k (c # cs) \<or> contains_literal k cs)"

definition contains_ci :: "string \<Rightarrow> string \<Rightarrow> bool" where
  "contains_ci keyword d = contains_literal (lower keyword) (lower d)"

subsection \<open>A fragment of Python's regular expressions\<close>

text \<open>
  The fragment of the syntax of \<open>re\<close> made of literal characters, \<open>.\<close>, the postfix \<open>*\<close>,
  \<open>|\<close> and groups in parentheses, compiled with \<open>re.IGNORECASE\<close>. A pattern that uses
  another metacharacter is outside the fragment, and the model says so with \<open>NotModelled\<close>,
  which is no exception of the program.
\<close>

datatype rx = Never | Eps | Lit char | Dot | Cat rx rx | Alt rx rx | Star rx

fun nullable :: "rx \<Rightarrow> bool" where
  "nullable Never = False"
| "nullable Eps = True"
| "nullable (Lit a) = False"
| "nullable Dot = False"
| "nullable (Cat r s) = (nullable r \<and> nullable s)"
| "nullable (Alt r s) = (nullable r \<or> nullable s)"
| "nullable (Star r) = True"

text \<open>What is left of the pattern after it has read the character \<open>c\<close>, letter case ignored.\<close>

fun deriv :: "char \<Rightarrow> rx \<Rightarrow> rx" where
  "deriv c Never = Never"
| "deriv c Eps = Never"
| "deriv c (Lit a) = (if py_lower a = py_lower c then Eps else Never)"
| "deriv c Dot = (if c = CHR 0x0A then Never else Eps)"
| "deriv c (Cat r s) =
     (if nullable r then Alt (Cat (deriv c r) s) (deriv c s) else Cat (deriv c r) s)"
| "deriv c (Alt r s) = Alt (deriv c r) (deriv c s)"
| "deriv c (Star r) = Cat (deriv c r) (Star r)"

text \<open>Some prefix of the text matches the pattern.\<close>

fun match_here :: "rx \<Rightarrow> string \<Rightarrow> bool" where
  "match_here r [] = nullable r"
| "match_here r (c # cs) = (nullable r \<or> match_here (deriv c r) cs)"

text \<open>\<open>pattern.search(s) is not None\<close>: the pattern matches at some position of the text.\<close>

fun re_search :: "rx \<Rightarrow> string \<Rightarrow> bool" where
  "re_search r [] = nullable r"
| "re_search r (c # cs) = (match_here r (c # cs) \<or> re_search r cs)"

text \<open>
  The parser keeps one frame for each group that is open: the alternatives of the group
  that are complete, and the items of the alternative being read, the last one first,
  each with a mark that says whether it ends with a repetition.
\<close>

type_synonym frame = "rx list \<times> (rx \<times> bool) list"

fun seq_rx :: "(rx \<times> bool) list \<Rightarrow> rx" where
  "seq_rx [] = Eps"
| "seq_rx ((r, q) # items) = Cat (seq_rx items) r"

fun alt_rx :: "rx list \<Rightarrow> rx" where
  "alt_rx [] = Never"
| "alt_rx [r] = r"
| "alt_rx (r # rs) = Alt r (alt_rx rs)"

definition close_frame :: "frame \<Rightarrow> rx" where
  "close_frame f = alt_rx (fst f @ [seq_rx (snd f)])"

definition other_meta :: "char \<Rightarrow> bool" where
  "other_meta c = (c \<in> set ''^$+?{['' \<or> c = CHR 0x5C)"

fun re_step :: "char \<Rightarrow> frame list \<Rightarrow> error + frame list" where
  "re_step c [] = Inl (NotModelled ''no open frame'')"
| "re_step c ((alts, items) # st) =
     (if c = CHR ''('' then Inr (([], []) # (alts, items) # st)
      else if c = CHR '')'' then
        (case st of
           [] \<Rightarrow> Inl (ReError ''unbalanced parenthesis'')
         | (alts', items') # st' \<Rightarrow>
             Inr ((alts', (close_frame (alts, items), False) # items') # st'))
      else if c = CHR ''|'' then Inr ((alts @ [seq_rx items], []) # st)
      else if c = CHR ''*'' then
        (case items of
           [] \<Rightarrow> Inl (ReError ''nothing to repeat'')
         | (r, q) # items' \<Rightarrow>
             if q then Inl (ReError ''multiple repeat'')
             else Inr ((alts, (Star r, True) # items') # st))
      else if c = CHR ''.'' then Inr ((alts, (Dot, False) # items) # st)
      else if other_meta c then Inl (NotModelled ''metacharacter outside the fragment'')
      else Inr ((alts, (Lit c, False) # items) # st))"

fun re_parse :: "frame list \<Rightarrow> string \<Rightarrow> error + rx" where
  "re_parse st [] =
     (case st of
        [f] \<Rightarrow> Inr (close_frame f)
      | _ \<Rightarrow> Inl (ReError ''missing ), unterminated subpattern''))"
| "re_parse st (c # cs) =
     (case re_step c st of Inl e \<Rightarrow> Inl e | Inr st' \<Rightarrow> re_parse st' cs)"

definition re_compile :: "string \<Rightarrow> error + (string \<Rightarrow> bool)" where
  "re_compile pat =
     (case re_parse [([], [])] pat of Inl e \<Rightarrow> Inl e | Inr r \<Rightarrow> Inr (re_search r))"

section \<open>Notions used to state the properties\<close>

text \<open>
  What the specification calls a valid row: the timestamp parses, and latitude and
  longitude parse to numbers of the ranges \<open>[-90, 90]\<close> and \<open>[-180, 180]\<close>. The row is read
  under the labels of \<open>rename_columns\<close>; \<open>col\<close> is the whole \<open>datetime\<close> column.
\<close>

definition in_range :: "cell \<Rightarrow> real \<Rightarrow> real \<Rightarrow> bool" where
  "in_range c lo hi = (case c of Num (Fin x) \<Rightarrow> lo \<le> x \<and> x \<le> hi | _ \<Rightarrow> False)"

definition row_valid :: "pandas_ext \<Rightarrow> cell list \<Rightarrow> row \<Rightarrow> bool" where
  "row_valid P col r =
     (to_datetime P col (r ''datetime'') \<noteq> Null \<and>
      in_range (to_numeric P (r ''latitude'')) (- 90) 90 \<and>
      in_range (to_numeric P (r ''longitude'')) (- 180) 180)"

definition valid_rows :: "pandas_ext \<Rightarrow> dataframe \<Rightarrow> (nat \<times> row) list" where
  "valid_rows P df = filter (\<lambda>(i, r). row_valid P (column df ''datetime'') r) (rows df)"

text \<open>
  The \<open>date_posted_str\<close> column as line 49 sees it, if the frame has one: the cells of the
  rows that are still there.
\<close>

definition posted_column :: "pandas_ext \<Rightarrow> dataframe \<Rightarrow> cell list option" where
  "posted_column P df =
     (if ''date_posted_str'' \<in> set (columns df)
      then Some (map (\<lambda>(i, r). r ''date_posted_str'') (valid_rows P df)) else None)"

text \<open>The cells of a row after lines 24 to 51, written out field by field.\<close>

definition norm_row :: "pandas_ext \<Rightarrow> cell list \<Rightarrow> cell list option \<Rightarrow> row \<Rightarrow> row" where
  "norm_row P col pcol r =
     r(''datetime'' := to_datetime P col (r ''datetime''),
       ''date'' := dt_normalize (to_datetime P col (r ''datetime'')),
       ''latitude'' := to_numeric P (r ''latitude''),
       ''longitude'' := to_numeric P (r ''longitude''),
       ''shape'' := clean_shape (r ''shape''),
       ''description'' := clean_description P (r ''description''),
       ''duration_s'' := clean_duration P (r ''duration_s''),
       ''date_posted'' := (case pcol of None \<Rightarrow> Null
                           | Some pc \<Rightarrow> to_datetime P pc (r ''date_posted_str'')))"

definition restrict_row :: "string list \<Rightarrow> row \<Rightarrow> row" where
  "restrict_row names r = (\<lambda>k. if k \<in> set names then r k else Null)"

definition needed_columns :: "string list" where
  "needed_columns = [''datetime'', ''latitude'', ''longitude'', ''shape'', ''description'',
     ''duration_s'', ''city'', ''state'', ''country'']"

text \<open>The rows that are the first of their key, in the order of the list.\<close>

definition first_of_key :: "('a \<Rightarrow> 'k) \<Rightarrow> 'a list \<Rightarrow> 'a list" where
  "first_of_key key xs =
     map snd (filter (\<lambda>(n, x). key x \<notin> key ` set (take n xs)) (enumerate 0 xs))"

text \<open>The cells of a result under the given labels, row by row, each with its index label.\<close>

definition cells :: "string list \<Rightarrow> error + dataframe \<Rightarrow> error + (nat \<times> cell list) list" where
  "cells names res =
     (case res of
        Inl e \<Rightarrow> Inl e
      | Inr df \<Rightarrow> Inr (map (\<lambda>(i, r). (i, map r names)) (rows df)))"

subsection \<open>Concrete frames\<close>

text \<open>A row given by its cells; every other cell is missing.\<close>

definition row_of :: "(string \<times> cell) list \<Rightarrow> row" where
  "row_of cs = (\<lambda>k. case map_of cs k of Some c \<Rightarrow> c | None \<Rightarrow> Null)"

text \<open>The header of the data set the program is written for.\<close>

definition nuforc_header :: "string list" where
  "nuforc_header = [''datetime'', ''city'', ''state'', ''country'', ''shape'',
     ''duration (seconds)'', ''duration (hours/min)'', ''comments'', ''date posted'',
     ''latitude'', ''longitude '']"

text \<open>
  The parsers on the texts of the frames below: \<open>10/10/1949 20:30\<close> is the timestamp
  \<open>-638249400\<close> seconds, and \<open>4/27/2004\<close> is \<open>1083024000\<close> seconds.
\<close>

definition ex_ext :: pandas_ext where
  "ex_ext = table_ext [(Str ''10/10/1949 20:30'', - 638249400000000000),
                       (Str ''4/27/2004'', 1083024000000000000)] [] []"

definition nuforc_row :: "cell \<Rightarrow> cell \<Rightarrow> cell \<Rightarrow> cell \<Rightarrow> cell \<Rightarrow> cell \<Rightarrow> cell \<Rightarrow> row" where
  "nuforc_row dt city shape dur comm lat lon =
     row_of [(''datetime'', dt), (''city'', city), (''state'', Str ''tx''), (''country'', Str ''us''),
             (''shape'', shape), (''duration (seconds)'', dur),
             (''duration (hours/min)'', Str ''45 minutes''), (''comments'', comm),
             (''date posted'', Str ''4/27/2004''), (''latitude'', lat), (''longitude '', lon)]"

definition mixed_rows :: dataframe where
  "mixed_rows = \<lparr>columns = nuforc_header, rows =
     [(0, nuforc_row (Str ''10/10/1949 20:30'') (Str ''san marcos'') (Str ''cylinder'')
            (Num (Fin 2700)) (Str ''a light'') (Num (Fin 29)) (Num (Fin (- 97)))),
      (1, nuforc_row (Str ''10/10/1949 20:30'') (Str ''north pole'') (Str ''light'')
            (Num (Fin 20)) (Str ''too far north'') (Num (Fin 91)) (Num (Fin 0))),
      (2, nuforc_row (Str ''some evening'') (Str ''bath'') (Str ''disk'')
            (Num (Fin 20)) (Str ''no date'') (Num (Fin 51)) (Num (Fin (- 2)))),
      (3, nuforc_row (Str ''10/10/1949 20:30'') (Str ''bath'') (Str ''disk'')
            (Num (Fin 20)) (Str ''no longitude'') (Num (Fin 51)) Null)]\<rparr>"

definition duration_rows :: dataframe where
  "duration_rows = \<lparr>columns = nuforc_header, rows =
     [(0, nuforc_row (Str ''10/10/1949 20:30'') (Str ''san marcos'') (Str ''cylinder'')
            (Num (Fin 2700)) (Str ''a light'') (Num (Fin 29)) (Num (Fin (- 97)))),
      (1, nuforc_row (Str ''10/10/1949 20:30'') (Str ''bath'') (Str ''disk'')
            Null (Str ''no duration'') (Num (Fin 51)) (Num (Fin (- 2)))),
      (2, nuforc_row (Str ''10/10/1949 20:30'') (Str ''bath'') (Str ''disk'')
            (Str ''a while'') (Str ''a duration in words'') (Num (Fin 51)) (Num (Fin (- 2)))),
      (3, nuforc_row (Str ''10/10/1949 20:30'') (Str ''bath'') (Str ''disk'')
            (Num (Fin (- 5))) (Str ''a negative duration'') (Num (Fin 51)) (Num (Fin (- 2))))]\<rparr>"

definition twin_rows :: dataframe where
  "twin_rows = \<lparr>columns = nuforc_header, rows =
     [(0, nuforc_row (Str ''10/10/1949 20:30'') (Str ''san marcos'') (Str ''cylinder'')
            (Num (Fin 2700)) (Str ''Two lights, moving fast!'') (Num (Fin 29)) (Num (Fin (- 97)))),
      (1, nuforc_row (Str ''10/10/1949 20:30'') (Str ''austin'') (Str ''light'')
            (Num (Fin 60)) (Str ''Two lights, moving fast!'') (Num (Fin 29)) (Num (Fin (- 97))))]\<rparr>"

definition stored_rows :: dataframe where
  "stored_rows = \<lparr>columns = cleaned_columns, rows =
     [(0, row_of [(''description'', Str ''Bright light (round)''), (''shape'', Str ''light'')]),
      (1, row_of [(''description'', Str ''abc''), (''shape'', Str ''disk'')]),
      (2, row_of [(''description'', Null), (''shape'', Str ''disk'')])]\<rparr>"

definition empty_world :: world where
  "empty_world = \<lparr>cleaned_csv = None, sightings = None\<rparr>"

definition db_locked_io :: io_env where
  "db_locked_io =
     \<lparr>read_csv = Inr twin_rows,
      to_csv = (\<lambda>df w. (w\<lparr>cleaned_csv := Some df\<rparr>, None)),
      to_sql = (\<lambda>df w. (w, Some (OSError ''database is locked'')))\<rparr>"

definition no_file_io :: io_env where
  "no_file_io =
     \<lparr>read_csv = Inl FileNotFoundError,
      to_csv = (\<lambda>df w. (w\<lparr>cleaned_csv := Some df\<rparr>, None)),
      to_sql = (\<lambda>df w. (w\<lparr>sightings := Some df\<rparr>, None))\<rparr>"

definition relabel_cleaned :: "row \<Rightarrow> row" where
  "relabel_cleaned r =
     (\<lambda>k. if k = ''date_posted_str'' then r ''date_posted''
          else if k \<in> set cleaned_columns \<and> k \<noteq> ''date_posted'' then r k else Null)"

definition trim_rows :: dataframe where
  "trim_rows = \<lparr>columns = nuforc_header, rows =
     [(0, nuforc_row (Str ''10/10/1949 20:30'') (Str ''san marcos'') (Str ''cylinder'')
            (Num (Fin 2700)) (Str ''a @'') (Num (Fin 29)) (Num (Fin (- 97)))),
      (1, nuforc_row (Str ''10/10/1949 20:30'') (Str ''austin'') (Str ''light'')
            (Num (Fin 60)) (Str ''a'') (Num (Fin 29)) (Num (Fin (- 97))))]\<rparr>"

definition cleaned_row :: "cell \<Rightarrow> cell \<Rightarrow> cell \<Rightarrow> cell \<Rightarrow> row" where
  "cleaned_row city shape dur descr =
     row_of [(''datetime'', Time (- 638249400000000000)), (''date'', Time (- 638323200000000000)),
             (''city'', city), (''state'', Str ''tx''), (''country'', Str ''us''),
             (''shape'', shape), (''duration_s'', dur), (''description'', descr),
             (''latitude'', Num (Fin 29)), (''longitude'', Num (Fin (- 97))),
             (''date_posted'', Time 1083024000000000000)]"

text \<open>The records that the first pass makes of \<open>trim_rows\<close>, cell by cell.\<close>

definition trimmed_once :: dataframe where
  "trimmed_once = \<lparr>columns = cleaned_columns, rows =
     [(0, cleaned_row (Str ''san marcos'') (Str ''cylinder'') (Num (Fin 2700)) (Str ''a '')),
      (1, cleaned_row (Str ''austin'') (Str ''light'') (Num (Fin 60)) (Str ''a''))]\<rparr>"

definition entity_rows :: dataframe where
  "entity_rows = \<lparr>columns = nuforc_header, rows =
     [(0, nuforc_row (Str ''10/10/1949 20:30'') (Str ''san marcos'') (Str ''light'')
            (Num (Fin 2700)) (Str ''Saw a light&#44; bright!'') (Num (Fin 29)) (Num (Fin (- 97))))]\<rparr>"

text \<open>A frame whose file has other columns than the ones \<open>clean_data\<close> reads.\<close>

definition other_header :: dataframe where
  "other_header = \<lparr>columns = [''when'', ''where''], rows =
     [(0, row_of [(''when'', Str ''10/10/1949 20:30''), (''where'', Str ''san marcos'')])]\<rparr>"




text \<open>Further worlds for the batch run: a file with other columns, a full disk, and a run that works.\<close>

definition other_header_io :: io_env where
  "other_header_io =
     \<lparr>read_csv = Inr other_header,
      to_csv = (\<lambda>df w. (w\<lparr>cleaned_csv := Some df\<rparr>, None)),
      to_sql = (\<lambda>df w. (w\<lparr>sightings := Some df\<rparr>, None))\<rparr>"

definition disk_full_io :: io_env where
  "disk_full_io =
     \<lparr>read_csv = Inr twin_rows,
      to_csv = (\<lambda>df w. (w, Some (OSError ''No space left on device''))),
      to_sql = (\<lambda>df w. (w\<lparr>sightings := Some df\<rparr>, None))\<rparr>"

definition working_io :: io_env where
  "working_io =
     \<lparr>read_csv = Inr twin_rows,
      to_csv = (\<lambda>df w. (w\<lparr>cleaned_csv := Some df\<rparr>, None)),
      to_sql = (\<lambda>df w. (w\<lparr>sightings := Some df\<rparr>, None))\<rparr>"


section \<open>Properties\<close>

subsection \<open>Text\<close>

lemmas text_defs = strip_def lower_def py_lower_def is_upper_def is_space_def is_alnum_def
  is_word_def not_allowed_def code_point_def

lemma re_sub_class_filter: "re_sub_class cls [] s = filter (\<lambda>c. \<not> cls c) s"
  by (induction s) simp_all

lemma replace_lit_absent:
  "pat \<noteq> [] \<Longrightarrow> hd pat \<notin> set s \<Longrightarrow> replace_lit pat rep s = s"
proof (induction pat rep s rule: replace_lit.induct)
  case (1 pat rep)
  then show ?case by simp
next
  case (2 pat rep c cs)
  have "\<not> prefix pat (c # cs)"
  proof
    assume "prefix pat (c # cs)"
    with 2(3) have "hd pat = c" by (cases pat) auto
    with 2(4) show False by simp
  qed
  with 2 show ?case by simp
qed

lemma amp_not_allowed: "not_allowed (CHR ''&'')"
  by (simp add: not_allowed_def is_word_def is_alnum_def is_space_def code_point_def)

text \<open>
  After line 41 no \<open>&\<close> is left in a description, so the three replacements of line 42 find
  nothing to replace.
\<close>

lemma decode_entities_strip_markup: "decode_entities (strip_markup P c) = strip_markup P c"
proof -
  let ?s = "re_sub_class not_allowed [] (strip (to_text P (fillna (Str []) c)))"
  have a: "CHR ''&'' \<notin> set ?s"
    by (simp add: re_sub_class_filter amp_not_allowed)
  have "replace_lit ''&#44'' '','' ?s = ?s"
    using a by (intro replace_lit_absent) simp_all
  moreover have "replace_lit ''&quot;'' [CHR 0x22] ?s = ?s"
    using a by (intro replace_lit_absent) simp_all
  moreover have "replace_lit ''&#33;'' ''!'' ?s = ?s"
    using a by (intro replace_lit_absent) simp_all
  ultimately show ?thesis
    by (simp add: decode_entities_def strip_markup_def str_apply_def)
qed

subsection \<open>Frames and the stages of the normalizer\<close>

lemma and_then_Inr [simp]: "and_then (Inr x) f = f x"
  by (simp add: and_then_def)

lemma and_then_Inl [simp]: "and_then (Inl e) f = Inl e"
  by (simp add: and_then_def)

lemma and_then_eq_Inr: "and_then m f = Inr y \<longleftrightarrow> (\<exists>x. m = Inr x \<and> f x = Inr y)"
  by (cases m) simp_all

lemma require_eq_Inr: "require name df = Inr d \<longleftrightarrow> (name \<in> set (columns df) \<and> d = df)"
  by (auto simp: require_def)

lemma rows_assign: "rows (assign name f df) = map (\<lambda>(i, r). (i, r(name := f r))) (rows df)"
  by (simp add: assign_def)

lemma columns_assign: "set (columns (assign name f df)) = insert name (set (columns df))"
  by (auto simp: assign_def)

lemma rows_dropna: "rows (dropna names df) = filter (\<lambda>(i, r). \<forall>k \<in> set names. r k \<noteq> Null) (rows df)"
  by (simp add: dropna_def)

lemma columns_dropna: "columns (dropna names df) = columns df"
  by (simp add: dropna_def)

lemma rows_select_rows: "rows (select_rows p df) = filter (\<lambda>(i, r). p r) (rows df)"
  by (simp add: select_rows_def)

lemma columns_select_rows: "columns (select_rows p df) = columns df"
  by (simp add: select_rows_def)

lemmas frame_simps = rows_assign columns_assign rows_dropna columns_dropna rows_select_rows
  columns_select_rows

lemma in_range_iff: "in_range c lo hi \<longleftrightarrow> c \<noteq> Null \<and> ge_num c lo \<and> le_num c hi"
  by (auto simp: in_range_def ge_num_def le_num_def split: cell.splits fnum.splits)

lemma stage_datetime_rows:
  assumes "stage_datetime P df = Inr d"
  shows "rows d = map (\<lambda>(i, r). (i, r(''datetime'' := to_datetime P (column df ''datetime'') (r ''datetime''),
                                   ''date'' := dt_normalize (to_datetime P (column df ''datetime'') (r ''datetime'')))))
                    (filter (\<lambda>(i, r). to_datetime P (column df ''datetime'') (r ''datetime'') \<noteq> Null) (rows df))"
    and "set (columns d) = insert ''date'' (set (columns df))" and "''datetime'' \<in> set (columns df)"
  using assms
  by (auto simp: stage_datetime_def and_then_eq_Inr require_eq_Inr Let_def frame_simps filter_map comp_def
      case_prod_unfold)

lemma map_filter_cong:
  "(\<And>x. x \<in> set xs \<Longrightarrow> p x = q x) \<Longrightarrow> map f (filter p xs) = map f (filter q xs)"
  by (metis filter_cong)

lemma stage_coordinates_rows:
  assumes "stage_coordinates P df = Inr d"
  shows "rows d = map (\<lambda>(i, r). (i, r(''latitude'' := to_numeric P (r ''latitude''),
                                   ''longitude'' := to_numeric P (r ''longitude''))))
                    (filter (\<lambda>(i, r). in_range (to_numeric P (r ''latitude'')) (- 90) 90 \<and>
                                       in_range (to_numeric P (r ''longitude'')) (- 180) 180) (rows df))"
    and "set (columns d) = set (columns df)"
    and "''latitude'' \<in> set (columns df)" and "''longitude'' \<in> set (columns df)"
  using assms
  by (auto simp: stage_coordinates_def and_then_eq_Inr require_eq_Inr Let_def frame_simps filter_map comp_def
      case_prod_unfold in_range_iff intro!: map_filter_cong)

lemma stage_shape_rows:
  assumes "stage_shape df = Inr d"
  shows "rows d = map (\<lambda>(i, r). (i, r(''shape'' := clean_shape (r ''shape'')))) (rows df)"
    and "set (columns d) = set (columns df)" and "''shape'' \<in> set (columns df)"
  using assms
  by (auto simp: stage_shape_def and_then_eq_Inr require_eq_Inr frame_simps)

lemma stage_description_rows:
  assumes "stage_description P df = Inr d"
  shows "rows d = map (\<lambda>(i, r). (i, r(''description'' := clean_description P (r ''description'')))) (rows df)"
    and "set (columns d) = set (columns df)" and "''description'' \<in> set (columns df)"
  using assms
  by (auto simp: stage_description_def and_then_eq_Inr require_eq_Inr frame_simps Let_def comp_def
      case_prod_unfold clean_description_def)

lemma stage_duration_rows:
  assumes "stage_duration P df = Inr d"
  shows "rows d = map (\<lambda>(i, r). (i, r(''duration_s'' := clean_duration P (r ''duration_s'')))) (rows df)"
    and "set (columns d) = set (columns df)" and "''duration_s'' \<in> set (columns df)"
  using assms
  by (auto simp: stage_duration_def and_then_eq_Inr require_eq_Inr frame_simps)

lemma stage_date_posted_rows:
  "rows (stage_date_posted P df) =
     map (\<lambda>(i, r). (i, r(''date_posted'' :=
            (if ''date_posted_str'' \<in> set (columns df)
             then to_datetime P (column df ''date_posted_str'') (r ''date_posted_str'') else Null)))) (rows df)"
  "set (columns (stage_date_posted P df)) = insert ''date_posted'' (set (columns df))"
  by (auto simp: stage_date_posted_def frame_simps Let_def)

lemma normalize_steps_rows:
  assumes "normalize_steps P df = Inr d"
  shows "rows d = map (\<lambda>(i, r). (i, norm_row P (column (rename_columns df) ''datetime'')
                                        (posted_column P (rename_columns df)) r))
                      (valid_rows P (rename_columns df))"
proof -
  let ?R = "rename_columns df"
  from assms obtain d1 d2 d3 d4 d5 where
    s1: "stage_datetime P ?R = Inr d1" and s2: "stage_coordinates P d1 = Inr d2"
    and s3: "stage_shape d2 = Inr d3" and s4: "stage_description P d3 = Inr d4"
    and s5: "stage_duration P d4 = Inr d5" and s6: "d = stage_date_posted P d5"
    by (auto simp: normalize_steps_def and_then_eq_Inr)
  have cols: "''date_posted_str'' \<in> set (columns d5) \<longleftrightarrow> ''date_posted_str'' \<in> set (columns ?R)"
    by (simp add: stage_duration_rows(2)[OF s5] stage_description_rows(2)[OF s4]
        stage_shape_rows(2)[OF s3] stage_coordinates_rows(2)[OF s2] stage_datetime_rows(2)[OF s1])
  show ?thesis
    unfolding s6 stage_date_posted_rows cols column_def
      stage_duration_rows(1)[OF s5] stage_description_rows(1)[OF s4]
      stage_shape_rows(1)[OF s3] stage_coordinates_rows(1)[OF s2] stage_datetime_rows(1)[OF s1]
    by (auto simp: filter_map comp_def case_prod_unfold norm_row_def valid_rows_def row_valid_def
        posted_column_def column_def intro!: map_filter_cong)
qed

lemma normalize_steps_columns:
  assumes "normalize_steps P df = Inr d"
  shows "set (columns d) = set (columns (rename_columns df)) \<union> {''date'', ''date_posted''}"
    and "{''datetime'', ''latitude'', ''longitude'', ''shape'', ''description'', ''duration_s''}
           \<subseteq> set (columns (rename_columns df))"
proof -
  let ?R = "rename_columns df"
  from assms obtain d1 d2 d3 d4 d5 where
    s1: "stage_datetime P ?R = Inr d1" and s2: "stage_coordinates P d1 = Inr d2"
    and s3: "stage_shape d2 = Inr d3" and s4: "stage_description P d3 = Inr d4"
    and s5: "stage_duration P d4 = Inr d5" and s6: "d = stage_date_posted P d5"
    by (auto simp: normalize_steps_def and_then_eq_Inr)
  note c = stage_duration_rows(2)[OF s5] stage_description_rows(2)[OF s4]
        stage_shape_rows(2)[OF s3] stage_coordinates_rows(2)[OF s2] stage_datetime_rows(2)[OF s1]
  show "set (columns d) = set (columns ?R) \<union> {''date'', ''date_posted''}"
    unfolding s6 stage_date_posted_rows c by auto
  show "{''datetime'', ''latitude'', ''longitude'', ''shape'', ''description'', ''duration_s''}
           \<subseteq> set (columns ?R)"
    using stage_datetime_rows(3)[OF s1] stage_coordinates_rows(3,4)[OF s2] stage_shape_rows(3)[OF s3]
      stage_description_rows(3)[OF s4] stage_duration_rows(3)[OF s5] c
    by auto
qed

lemma normalize_steps_total:
  assumes "{''datetime'', ''latitude'', ''longitude'', ''shape'', ''description'', ''duration_s''}
           \<subseteq> set (columns (rename_columns df))"
  shows "\<exists>d. normalize_steps P df = Inr d"
  using assms
  by (simp add: normalize_steps_def stage_datetime_def stage_coordinates_def stage_shape_def
      stage_description_def stage_duration_def require_def Let_def frame_simps)

lemma rows_drop_duplicates:
  "rows (drop_duplicates names df) = drop_seen [] (\<lambda>(i, r). map r names) (rows df)"
  "columns (drop_duplicates names df) = columns df"
  by (simp_all add: drop_duplicates_def)

lemma select_columns_eq_Inr:
  "select_columns names df = Inr d \<longleftrightarrow>
     (set names \<subseteq> set (columns df) \<and>
      d = \<lparr>columns = names, rows = map (\<lambda>(i, r). (i, restrict_row names r)) (rows df)\<rparr>)"
  by (auto simp: select_columns_def restrict_row_def)

lemma clean_data_eq_Inr:
  "clean_data P g df = Inr out \<longleftrightarrow>
     (g \<noteq> None \<and> set needed_columns \<subseteq> set (columns (rename_columns df)) \<and>
      (\<exists>pre. normalize_steps P df = Inr pre \<and>
         out = \<lparr>columns = cleaned_columns,
                rows = map (\<lambda>(i, r). (i, restrict_row cleaned_columns r))
                         (drop_seen [] (\<lambda>(i, r). map r dedup_key) (rows pre))\<rparr>))"
proof (cases "normalize_steps P df")
  case (Inl e)
  then show ?thesis by (simp add: clean_data_def)
next
  case (Inr pre)
  have "set cleaned_columns \<subseteq> set (columns pre) \<longleftrightarrow> set needed_columns \<subseteq> set (columns (rename_columns df))"
    using normalize_steps_columns[OF Inr]
    by (auto simp: cleaned_columns_def needed_columns_def)
  then show ?thesis using Inr
    by (cases g) (auto simp: clean_data_def and_then_eq_Inr select_columns_eq_Inr rows_drop_duplicates)
qed

lemma drop_seen_map: "drop_seen seen key (map f xs) = map f (drop_seen seen (\<lambda>x. key (f x)) xs)"
  by (induction xs arbitrary: seen) simp_all

lemma clean_data_cells:
  assumes "set needed_columns \<subseteq> set (columns (rename_columns df))"
  shows "cells names (clean_data P (Some g) df) =
     Inr (map (\<lambda>(i, r). (i, map (restrict_row cleaned_columns
                 (norm_row P (column (rename_columns df) ''datetime'') (posted_column P (rename_columns df)) r)) names))
           (drop_seen [] (\<lambda>(i, r). map (norm_row P (column (rename_columns df) ''datetime'')
                 (posted_column P (rename_columns df)) r) dedup_key)
              (valid_rows P (rename_columns df))))"
proof -
  from assms obtain pre where pre: "normalize_steps P df = Inr pre"
    using normalize_steps_total[of df P] by (auto simp: needed_columns_def)
  have "clean_data P (Some g) df = Inr \<lparr>columns = cleaned_columns,
                rows = map (\<lambda>(i, r). (i, restrict_row cleaned_columns r))
                         (drop_seen [] (\<lambda>(i, r). map r dedup_key) (rows pre))\<rparr>"
    using assms pre by (simp add: clean_data_eq_Inr)
  then show ?thesis
    by (simp add: cells_def normalize_steps_rows[OF pre] drop_seen_map comp_def case_prod_unfold)
qed

lemma rename_columns_simps: "rows (rename_columns df) = map (\<lambda>(i, r). (i, \<lambda>k. case find (\<lambda>h. new_label h = k) (columns df) of
                                       Some h \<Rightarrow> r h | None \<Rightarrow> Null)) (rows df)"
  "columns (rename_columns df) = map new_label (columns df)"
  by (simp_all add: rename_columns_def)

lemma norm_row_apply:
  "norm_row P col pcol r ''datetime'' = to_datetime P col (r ''datetime'')"
  "norm_row P col pcol r ''date'' = dt_normalize (to_datetime P col (r ''datetime''))"
  "norm_row P col pcol r ''latitude'' = to_numeric P (r ''latitude'')"
  "norm_row P col pcol r ''longitude'' = to_numeric P (r ''longitude'')"
  "norm_row P col pcol r ''shape'' = clean_shape (r ''shape'')"
  "norm_row P col pcol r ''description'' = clean_description P (r ''description'')"
  "norm_row P col pcol r ''duration_s'' = clean_duration P (r ''duration_s'')"
  "norm_row P col pcol r ''date_posted'' =
     (case pcol of None \<Rightarrow> Null | Some pc \<Rightarrow> to_datetime P pc (r ''date_posted_str''))"
  "norm_row P col pcol r ''city'' = r ''city''"
  "norm_row P col pcol r ''state'' = r ''state''"
  "norm_row P col pcol r ''country'' = r ''country''"
  by (simp_all add: norm_row_def)

lemma nuforc_header_labels: "map new_label nuforc_header = [''datetime'', ''city'', ''state'', ''country'', ''shape'',
     ''duration_s'', ''duration_h_m'', ''description'', ''date_posted_str'',
     ''latitude'', ''longitude'']"
  by (simp add: nuforc_header_def new_label_def canon_header_def rename_header_def text_defs)

lemmas eval_defs = rename_columns_simps norm_row_apply restrict_row_def cleaned_columns_def dedup_key_def
  valid_rows_def row_valid_def posted_column_def column_def in_range_def
  to_datetime_def to_numeric_def dt_normalize_def day_ns_def
  fillna_def str_apply_def to_text_def clean_shape_def clean_description_def strip_markup_def
  decode_entities_def clean_duration_def table_ext_def row_of_def

subsection \<open>The records of the output\<close>

lemma nuforc_labels:
    "new_label ''datetime'' = ''datetime''" "new_label ''city'' = ''city''"
    "new_label ''state'' = ''state''" "new_label ''country'' = ''country''"
    "new_label ''shape'' = ''shape''" "new_label ''duration (seconds)'' = ''duration_s''"
    "new_label ''duration (hours/min)'' = ''duration_h_m''" "new_label ''comments'' = ''description''"
    "new_label ''date posted'' = ''date_posted_str''" "new_label ''latitude'' = ''latitude''"
    "new_label ''longitude '' = ''longitude''"
  using nuforc_header_labels by (simp_all add: nuforc_header_def)

lemma nuforc_needed:
  "columns df = nuforc_header \<Longrightarrow> set needed_columns \<subseteq> set (columns (rename_columns df))"
  by (simp add: rename_columns_simps nuforc_header_labels needed_columns_def)

lemmas nuforc_eval = nuforc_row_def nuforc_header_def nuforc_labels ex_ext_def eval_defs text_defs

lemma drop_seen_subset: "set (drop_seen seen key xs) \<subseteq> set xs"
  by (induction xs arbitrary: seen) auto

lemma clean_data_rows:
  assumes "clean_data P g df = Inr out"
  shows "rows out = map (\<lambda>(i, r). (i, restrict_row cleaned_columns
                 (norm_row P (column (rename_columns df) ''datetime'') (posted_column P (rename_columns df)) r)))
           (drop_seen [] (\<lambda>(i, r). map (norm_row P (column (rename_columns df) ''datetime'')
                 (posted_column P (rename_columns df)) r) dedup_key)
              (valid_rows P (rename_columns df)))"
proof -
  from assms obtain pre where pre: "normalize_steps P df = Inr pre"
    and out: "out = \<lparr>columns = cleaned_columns,
                rows = map (\<lambda>(i, r). (i, restrict_row cleaned_columns r))
                         (drop_seen [] (\<lambda>(i, r). map r dedup_key) (rows pre))\<rparr>"
    by (auto simp: clean_data_eq_Inr)
  show ?thesis
    by (simp add: out normalize_steps_rows[OF pre] drop_seen_map comp_def case_prod_unfold)
qed

lemma clean_data_provenance:
  assumes "clean_data P g df = Inr out" and "(i, r') \<in> set (rows out)"
  shows "\<exists>r. (i, r) \<in> set (rows (rename_columns df)) \<and>
             row_valid P (column (rename_columns df) ''datetime'') r \<and>
             r' = restrict_row cleaned_columns
                    (norm_row P (column (rename_columns df) ''datetime'')
                       (posted_column P (rename_columns df)) r)"
proof -
  from assms(2) obtain r where
    r: "(i, r) \<in> set (drop_seen [] (\<lambda>(i, r). map (norm_row P (column (rename_columns df) ''datetime'')
                 (posted_column P (rename_columns df)) r) dedup_key)
              (valid_rows P (rename_columns df)))"
    and r': "r' = restrict_row cleaned_columns
                    (norm_row P (column (rename_columns df) ''datetime'')
                       (posted_column P (rename_columns df)) r)"
    unfolding clean_data_rows[OF assms(1)] by auto
  from r have "(i, r) \<in> set (valid_rows P (rename_columns df))"
    using drop_seen_subset by fastforce
  then show ?thesis using r' by (auto simp: valid_rows_def)
qed

lemma to_datetime_cases: "to_datetime P col c = Null \<or> (\<exists>t. to_datetime P col c = Time t)"
  by (auto simp: to_datetime_def split: cell.splits option.splits)

lemma restricted_cells:
  "restrict_row cleaned_columns r ''datetime'' = r ''datetime''"
  "restrict_row cleaned_columns r ''date'' = r ''date''"
  "restrict_row cleaned_columns r ''city'' = r ''city''"
  "restrict_row cleaned_columns r ''state'' = r ''state''"
  "restrict_row cleaned_columns r ''country'' = r ''country''"
  "restrict_row cleaned_columns r ''shape'' = r ''shape''"
  "restrict_row cleaned_columns r ''duration_s'' = r ''duration_s''"
  "restrict_row cleaned_columns r ''description'' = r ''description''"
  "restrict_row cleaned_columns r ''latitude'' = r ''latitude''"
  "restrict_row cleaned_columns r ''longitude'' = r ''longitude''"
  "restrict_row cleaned_columns r ''date_posted'' = r ''date_posted''"
  by (simp_all add: restrict_row_def cleaned_columns_def)

lemma rename_columns_index: "map fst (rows (rename_columns df)) = map fst (rows df)"
  by (simp add: rename_columns_simps case_prod_unfold comp_def)

text \<open>
  Claim C1. Every record that \<open>clean_data\<close> returns has a parsed timestamp, a latitude in
  \<open>[-90, 90]\<close> and a longitude in \<open>[-180, 180]\<close>, and comes from a valid row of the input
  with the same index label; when the index labels of the input are distinct, the label
  of a row that is not valid is absent from the output.
\<close>

theorem clean_data_valid:
  assumes "clean_data P g df = Inr out"
  shows "(\<forall>(i, r) \<in> set (rows out).
            (\<exists>t. r ''datetime'' = Time t) \<and>
            in_range (r ''latitude'') (- 90) 90 \<and> in_range (r ''longitude'') (- 180) 180) \<and>
         (\<forall>(i, r') \<in> set (rows out). \<exists>r. (i, r) \<in> set (rows (rename_columns df)) \<and>
            row_valid P (column (rename_columns df) ''datetime'') r) \<and>
         (distinct (map fst (rows df)) \<longrightarrow>
            (\<forall>(i, r) \<in> set (rows (rename_columns df)).
               \<not> row_valid P (column (rename_columns df) ''datetime'') r \<longrightarrow>
               i \<notin> fst ` set (rows out)))"
proof (intro conjI impI)
  show "\<forall>(i, r) \<in> set (rows out).
            (\<exists>t. r ''datetime'' = Time t) \<and>
            in_range (r ''latitude'') (- 90) 90 \<and> in_range (r ''longitude'') (- 180) 180"
  proof (clarify)
    fix i r' assume "(i, r') \<in> set (rows out)"
    from clean_data_provenance[OF assms this] obtain r where
      v: "row_valid P (column (rename_columns df) ''datetime'') r"
      and r': "r' = restrict_row cleaned_columns
                    (norm_row P (column (rename_columns df) ''datetime'')
                       (posted_column P (rename_columns df)) r)"
      by blast
    from v to_datetime_cases[of P "column (rename_columns df) ''datetime''" "r ''datetime''"]
    show "(\<exists>t. r' ''datetime'' = Time t) \<and>
            in_range (r' ''latitude'') (- 90) 90 \<and> in_range (r' ''longitude'') (- 180) 180"
      by (auto simp: r' restricted_cells norm_row_apply row_valid_def)
  qed
next
  show "\<forall>(i, r') \<in> set (rows out). \<exists>r. (i, r) \<in> set (rows (rename_columns df)) \<and>
            row_valid P (column (rename_columns df) ''datetime'') r"
    using clean_data_provenance[OF assms] by blast
next
  assume d: "distinct (map fst (rows df))"
  show "\<forall>(i, r) \<in> set (rows (rename_columns df)).
               \<not> row_valid P (column (rename_columns df) ''datetime'') r \<longrightarrow>
               i \<notin> fst ` set (rows out)"
  proof -
    have "i \<notin> fst ` set (rows out)"
      if r: "(i, r) \<in> set (rows (rename_columns df))"
        and nv: "\<not> row_valid P (column (rename_columns df) ''datetime'') r" for i r
    proof
      assume "i \<in> fst ` set (rows out)"
      then obtain r' where o: "(i, r') \<in> set (rows out)" by auto
      from clean_data_provenance[OF assms o] obtain r2 where
        r2: "(i, r2) \<in> set (rows (rename_columns df))"
        and v: "row_valid P (column (rename_columns df) ''datetime'') r2" by blast
      from d have "distinct (map fst (rows (rename_columns df)))"
        by (simp add: rename_columns_index)
      from eq_key_imp_eq_value[OF this r r2] nv v show False by simp
    qed
    then show ?thesis by blast
  qed
qed

lemma cells_Inr:
  assumes "cells names res = Inr cs"
  shows "\<exists>d. res = Inr d \<and> map fst (rows d) = map fst cs \<and>
             map (\<lambda>(i, r). map r names) (rows d) = map snd cs"
proof (cases res)
  case (Inl e)
  with assms show ?thesis by (simp add: cells_def)
next
  case (Inr d)
  with assms have "cs = map (\<lambda>(i, r). (i, map r names)) (rows d)"
    by (simp add: cells_def)
  then show ?thesis using Inr by (simp add: case_prod_unfold comp_def)
qed

theorem clean_data_valid_witness:
  "\<exists>out. clean_data ex_ext (Some mixed_rows) mixed_rows = Inr out \<and>
     map fst (rows out) = [0] \<and>
     (\<forall>(i, r) \<in> set (rows out).
            (\<exists>t. r ''datetime'' = Time t) \<and>
            in_range (r ''latitude'') (- 90) 90 \<and> in_range (r ''longitude'') (- 180) 180) \<and>
     distinct (map fst (rows mixed_rows)) \<and>
     (\<forall>i \<in> {1, 2, 3}. i \<notin> fst ` set (rows out))"
proof -
  have c: "cells [] (clean_data ex_ext (Some mixed_rows) mixed_rows) = Inr [(0, [])]"
  proof -
    have n: "set needed_columns \<subseteq> set (columns (rename_columns mixed_rows))"
      by (rule nuforc_needed) (simp add: mixed_rows_def)
    show ?thesis
      unfolding clean_data_cells[OF n] by (simp add: mixed_rows_def nuforc_eval)
  qed
  from cells_Inr[OF c] obtain out where
    o: "clean_data ex_ext (Some mixed_rows) mixed_rows = Inr out"
    and i: "map fst (rows out) = [0]" by auto
  have "fst ` set (rows out) = {0}" using i by (metis list.set(1) list.set(2) set_map)
  with clean_data_valid[OF o] o i show ?thesis
    by (simp add: mixed_rows_def)
qed

lemma nuforc_cells:
  assumes "columns df = nuforc_header"
  shows "cells names (clean_data P (Some g) df) =
     Inr (map (\<lambda>(i, r). (i, map (restrict_row cleaned_columns
                 (norm_row P (column (rename_columns df) ''datetime'') (posted_column P (rename_columns df)) r)) names))
           (drop_seen [] (\<lambda>(i, r). map (norm_row P (column (rename_columns df) ''datetime'')
                 (posted_column P (rename_columns df)) r) dedup_key)
              (valid_rows P (rename_columns df))))"
  by (rule clean_data_cells) (rule nuforc_needed[OF assms])

text \<open>
  Claim C4, as amended. The duration of every record of the output is the number that
  \<open>pd.to_numeric\<close> reads in the duration field of its row, and 0 when the field is missing
  or does not parse. Nothing clamps the number: a negative duration stays negative.
\<close>

theorem duration_as_parsed:
  assumes "clean_data P g df = Inr out"
  shows "\<forall>(i, r') \<in> set (rows out). \<exists>r. (i, r) \<in> set (rows (rename_columns df)) \<and>
           r' ''duration_s'' =
             (if to_numeric P (r ''duration_s'') = Null then Num (Fin 0)
              else to_numeric P (r ''duration_s''))"
proof (clarify)
  fix i r' assume "(i, r') \<in> set (rows out)"
  from clean_data_provenance[OF assms this] obtain r where
    "(i, r) \<in> set (rows (rename_columns df))"
    "r' = restrict_row cleaned_columns
            (norm_row P (column (rename_columns df) ''datetime'')
               (posted_column P (rename_columns df)) r)"
    by blast
  then show "\<exists>r. (i, r) \<in> set (rows (rename_columns df)) \<and>
           r' ''duration_s'' =
             (if to_numeric P (r ''duration_s'') = Null then Num (Fin 0)
              else to_numeric P (r ''duration_s''))"
    by (auto simp: restricted_cells norm_row_apply clean_duration_def fillna_def)
qed

lemma duration_rows_cells:
  "cells [''duration_s''] (clean_data ex_ext (Some duration_rows) duration_rows) =
     Inr [(0, [Num (Fin 2700)]), (1, [Num (Fin 0)]), (2, [Num (Fin 0)]), (3, [Num (Fin (- 5))])]"
  unfolding nuforc_cells[of duration_rows, OF duration_rows_def[THEN arg_cong[where f=columns], simplified]]
  by (simp add: duration_rows_def nuforc_eval)

theorem duration_as_parsed_witness:
  "\<exists>out. clean_data ex_ext (Some duration_rows) duration_rows = Inr out \<and>
     map fst (rows out) = [0, 1, 2, 3] \<and>
     (\<forall>(i, r') \<in> set (rows out). \<exists>r. (i, r) \<in> set (rows (rename_columns duration_rows)) \<and>
           r' ''duration_s'' =
             (if to_numeric ex_ext (r ''duration_s'') = Null then Num (Fin 0)
              else to_numeric ex_ext (r ''duration_s'')))"
proof -
  from cells_Inr[OF duration_rows_cells] obtain out where
    o: "clean_data ex_ext (Some duration_rows) duration_rows = Inr out"
    and i: "map fst (rows out) = [0, 1, 2, 3]" by auto
  from duration_as_parsed[OF o] o i show ?thesis by simp
qed

text \<open>
  Claim C4 as stated fails: a row whose duration is \<open>-5\<close> keeps the duration \<open>-5\<close>.
\<close>

theorem duration_counterexample:
  "cells [''duration_s''] (clean_data ex_ext (Some duration_rows) duration_rows) =
     Inr [(0, [Num (Fin 2700)]), (1, [Num (Fin 0)]), (2, [Num (Fin 0)]), (3, [Num (Fin (- 5))])] \<and>
   \<not> ge_num (Num (Fin (- 5))) 0"
  using duration_rows_cells by (simp add: ge_num_def)

lemma clean_shape_cases:
  "clean_shape Null = Str ''unknown''" "clean_shape (Str s) = Str (strip (lower s))"
  by (simp_all add: clean_shape_def fillna_def str_apply_def text_defs)

lemma clean_data_total:
  assumes "set needed_columns \<subseteq> set (columns (rename_columns df))"
  shows "\<exists>out. clean_data P (Some g) df = Inr out"
proof -
  from assms obtain pre where "normalize_steps P df = Inr pre"
    using normalize_steps_total[of df P] by (auto simp: needed_columns_def)
  with assms show ?thesis by (simp add: clean_data_eq_Inr)
qed

lemma drop_seen_enumerate:
  "drop_seen seen key xs =
     map snd (filter (\<lambda>(n, x). key x \<notin> set seen \<union> key ` set (take (n - k) xs)) (enumerate k xs))"
proof (induction xs arbitrary: seen k)
  case Nil
  show ?case by simp
next
  case (Cons x xs)
  have t: "take (n - k) (x # xs) = x # take (n - Suc k) xs" if "Suc k \<le> n" for n
  proof -
    from that have "n - k = Suc (n - Suc k)" by simp
    then show ?thesis by simp
  qed
  have e: "filter (\<lambda>(n, y). key y \<notin> set seen \<union> key ` set (take (n - k) (x # xs))) (enumerate (Suc k) xs) =
           filter (\<lambda>(n, y). key y \<notin> insert (key x) (set seen) \<union> key ` set (take (n - Suc k) xs)) (enumerate (Suc k) xs)"
    by (rule filter_cong) (auto simp: in_set_enumerate_eq t)
  show ?case
  proof (cases "key x \<in> set seen")
    case True
    then have "insert (key x) (set seen) = set seen" by auto
    with True e Cons.IH[of seen "Suc k"] show ?thesis by simp
  next
    case False
    with e Cons.IH[of "key x # seen" "Suc k"] show ?thesis by simp
  qed
qed

lemma drop_seen_first_of_key: "drop_seen [] key xs = first_of_key key xs"
  using drop_seen_enumerate[of "[]" key xs 0] by (simp add: first_of_key_def)

lemma drop_seen_distinct: "distinct (map key (drop_seen seen key xs)) \<and> key ` set (drop_seen seen key xs) \<inter> set seen = {}"
proof (induction xs arbitrary: seen)
  case Nil
  show ?case by simp
next
  case (Cons x xs)
  from Cons[of seen] Cons[of "key x # seen"] show ?case by auto
qed

lemma twin_rows_cells:
  "cells [''city'', ''description''] (clean_data ex_ext (Some twin_rows) twin_rows) =
     Inr [(0, [Str ''san marcos'', Str ''Two lights, moving fast!''])]"
  unfolding nuforc_cells[of twin_rows, OF twin_rows_def[THEN arg_cong[where f=columns], simplified]]
  by (simp add: twin_rows_def nuforc_eval)

subsection \<open>The keyword criterion\<close>

lemmas re_defs = re_compile_def close_frame_def other_meta_def

text \<open>
  Claim C5 asks for a literal, case-insensitive substring match. The program compiles the
  keyword as a regular expression instead: on the keyword \<open>(\<close>, which occurs in the first
  description, and on \<open>*\<close>, the filter raises the error of \<open>re.compile\<close>; on \<open>a.c\<close> it keeps
  the description \<open>abc\<close>, which does not contain the keyword.
\<close>

theorem keyword_is_a_regex:
  "keyword_filter re_compile ''('' stored_rows = Inl (ReError ''missing ), unterminated subpattern'') \<and>
   contains_ci ''('' ''Bright light (round)'' \<and>
   keyword_filter re_compile ''*'' stored_rows = Inl (ReError ''nothing to repeat'') \<and>
   cells [''description''] (keyword_filter re_compile ''a.c'' stored_rows) = Inr [(1, [Str ''abc''])] \<and>
   \<not> contains_ci ''a.c'' ''abc''"
  by (simp add: keyword_filter_def require_def stored_rows_def cleaned_columns_def re_defs
      select_rows_def str_contains_def row_of_def cells_def contains_ci_def text_defs)

lemma keyword_filter_empty: "keyword_filter compile [] df = Inr df"
  by (simp add: keyword_filter_def)

text \<open>
  Claim C10. For a non-empty keyword, the records whose description is missing have no
  effect on the keyword criterion: the filter gives the same result, or raises the same
  exception, as on the frame without them, and no record of a result has a missing
  description. This holds for every keyword and every regex engine.
\<close>

theorem missing_description_no_match:
  assumes "keyword \<noteq> []"
  shows "keyword_filter compile keyword df =
           keyword_filter compile keyword (select_rows (\<lambda>r. r ''description'' \<noteq> Null) df) \<and>
         (keyword_filter compile keyword df = Inr out \<longrightarrow>
            (\<forall>(i, r) \<in> set (rows out). r ''description'' \<noteq> Null))"
proof -
  have n: "str_contains s c \<Longrightarrow> c \<noteq> Null" for s c
    by (auto simp: str_contains_def)
  have "filter (\<lambda>(i, r). str_contains s (r ''description''))
          (filter (\<lambda>(i, r). r ''description'' \<noteq> Null) xs) =
        filter (\<lambda>(i, r). str_contains s (r ''description'')) xs" for s and xs :: "(nat \<times> row) list"
    unfolding filter_filter by (rule filter_cong) (auto dest: n)
  then have k: "select_rows (\<lambda>r. str_contains s (r ''description''))
             (select_rows (\<lambda>r. r ''description'' \<noteq> Null) df) =
           select_rows (\<lambda>r. str_contains s (r ''description'')) df" for s
    by (simp add: select_rows_def)
  show ?thesis
  proof (cases "compile keyword")
    case (Inl e)
    with assms show ?thesis
      by (simp add: keyword_filter_def require_def select_rows_def)
  next
    case (Inr s)
    with assms show ?thesis
      by (auto simp: keyword_filter_def require_def k columns_select_rows rows_select_rows dest: n)
  qed
qed

theorem missing_description_no_match_witness:
  "''light'' \<noteq> [] \<and>
   cells [''description''] (keyword_filter re_compile ''light'' stored_rows) =
     Inr [(0, [Str ''Bright light (round)''])] \<and>
   keyword_filter re_compile ''light'' stored_rows =
     keyword_filter re_compile ''light'' (select_rows (\<lambda>r. r ''description'' \<noteq> Null) stored_rows)"
proof -
  have "cells [''description''] (keyword_filter re_compile ''light'' stored_rows) =
     Inr [(0, [Str ''Bright light (round)''])]"
    by (simp add: keyword_filter_def require_def stored_rows_def cleaned_columns_def re_defs
      select_rows_def str_contains_def row_of_def cells_def text_defs)
  with missing_description_no_match[of "''light''" re_compile stored_rows] show ?thesis
    by simp
qed

subsection \<open>The batch run\<close>

text \<open>
  Claim C7 as stated fails: line 87 writes the export file before line 91 writes the table,
  so a run whose database write fails ends with the export file newly written.
\<close>

theorem main_partial_output_counterexample:
  "cleaned_csv (fst (main ex_ext db_locked_io empty_world)) \<noteq> cleaned_csv empty_world \<and>
   snd (main ex_ext db_locked_io empty_world) = ErrorReported (OSError ''database is locked'')"
proof -
  have "columns twin_rows = nuforc_header" by (simp add: twin_rows_def)
  from clean_data_total[OF nuforc_needed[OF this]] obtain out where
    o: "clean_data ex_ext (Some twin_rows) twin_rows = Inr out" by blast
  then show ?thesis
    by (simp add: main_def db_locked_io_def empty_world_def create_sqlite_db_def report_def)
qed

subsection \<open>A second pass of the normalizer\<close>

lemma is_space_py_lower: "is_space (py_lower c) = is_space c"
  by (cases c) (auto simp: py_lower_def is_upper_def is_space_def code_point_def)

lemma py_lower_idem: "py_lower (py_lower c) = py_lower c"
  by (cases c) (auto simp: py_lower_def is_upper_def code_point_def)

lemma lower_idem: "lower (lower s) = lower s"
  by (simp add: lower_def py_lower_idem)

lemma dropWhile_space_lower:
  "dropWhile is_space (map py_lower s) = map py_lower (dropWhile is_space s)"
  by (induction s) (simp_all add: is_space_py_lower)

lemma strip_lower: "strip (lower s) = lower (strip s)"
  by (simp add: strip_def lower_def dropWhile_space_lower rev_map)

lemma strip_fixed:
  assumes "s = [] \<or> (\<not> is_space (hd s) \<and> \<not> is_space (last s))"
  shows "strip s = s"
proof (cases s)
  case Nil
  then show ?thesis by (simp add: strip_def)
next
  case (Cons c cs)
  with assms have h: "\<not> is_space c" and l: "\<not> is_space (last s)" by auto
  from h Cons have "dropWhile is_space s = s" by simp
  moreover have "dropWhile is_space (rev s) = rev s"
  proof -
    from l have "\<not> is_space (hd (rev s))" by (simp add: hd_rev)
    then show ?thesis by (cases "rev s") auto
  qed
  ultimately show ?thesis by (simp add: strip_def)
qed

lemma strip_ends:
  "strip s = [] \<or> (\<not> is_space (hd (strip s)) \<and> \<not> is_space (last (strip s)))"
proof (cases "strip s = []")
  case True
  then show ?thesis by simp
next
  case False
  let ?a = "dropWhile is_space s"
  let ?b = "dropWhile is_space (rev ?a)"
  from False have b: "?b \<noteq> []" by (simp add: strip_def)
  have a: "?a \<noteq> []"
  proof
    assume "?a = []"
    then have "?b = []" by (simp only: rev.simps(1) dropWhile.simps(1))
    with b show False by simp
  qed
  have "last (strip s) = hd ?b" using b by (simp add: strip_def last_rev)
  then have l: "\<not> is_space (last (strip s))" using hd_dropWhile[OF b] by simp
  obtain ys where ys: "rev ?a = ys @ ?b"
    by (metis takeWhile_dropWhile_id)
  then have "?a = rev ?b @ rev ys" by (metis rev_append rev_rev_ident)
  then have "hd ?a = hd (rev ?b)" using b by (metis hd_append2 rev_is_Nil_conv)
  then have "\<not> is_space (hd (strip s))" using hd_dropWhile[OF a] by (simp add: strip_def)
  with l show ?thesis by simp
qed

lemma strip_idem: "strip (strip s) = strip s"
  by (rule strip_fixed) (rule strip_ends)

lemma clean_shape_settled: "clean_shape c = Str s \<Longrightarrow> clean_shape (Str s) = Str s"
proof -
  assume a: "clean_shape c = Str s"
  have "strip (lower s) = s"
  proof (cases c)
    case Null
    with a have "s = ''unknown''" by (simp add: clean_shape_cases)
    then show ?thesis by (simp add: text_defs)
  next
    case (Str x)
    with a have "s = strip (lower x)" by (simp add: clean_shape_cases)
    then show ?thesis by (simp add: strip_lower[symmetric] lower_idem strip_idem)
  qed (use a in \<open>simp_all add: clean_shape_def fillna_def str_apply_def\<close>)
  then show ?thesis by (simp add: clean_shape_cases)
qed

lemma clean_description_Str:
  "clean_description P c = Str (filter (\<lambda>c. \<not> not_allowed c) (strip (to_text P (fillna (Str []) c))))"
  by (simp add: clean_description_def decode_entities_strip_markup)
     (simp add: strip_markup_def re_sub_class_filter)

lemma clean_description_settled:
  assumes "clean_description P c = Str d" and "strip d = d"
  shows "clean_description P (Str d) = Str d"
proof -
  from assms(1) have "filter (\<lambda>c. \<not> not_allowed c) d = d"
    unfolding clean_description_Str by auto
  with assms(2) show ?thesis
    by (simp add: clean_description_Str to_text_def fillna_def)
qed

lemma clean_duration_Num: "\<exists>x. clean_duration P c = Num x"
  by (auto simp: clean_duration_def fillna_def to_numeric_def split: cell.splits option.splits)

lemma clean_duration_settled: "clean_duration P (clean_duration P c) = clean_duration P c"
  using clean_duration_Num[of P c] by (auto simp: clean_duration_def fillna_def to_numeric_def)

lemma to_datetime_settled: "to_datetime P col' (to_datetime P col c) = to_datetime P col c"
  using to_datetime_cases[of P col c] by (auto simp: to_datetime_def)

lemma to_numeric_settled: "in_range c lo hi \<Longrightarrow> to_numeric P c = c"
  by (auto simp: in_range_def to_numeric_def split: cell.splits fnum.splits)

lemma drop_seen_all:
  "distinct (map key xs) \<Longrightarrow> key ` set xs \<inter> set seen = {} \<Longrightarrow> drop_seen seen key xs = xs"
  by (induction xs arbitrary: seen) auto

lemma cleaned_labels:
  "map new_label cleaned_columns = [''datetime'', ''date'', ''city'', ''state'', ''country'', ''shape'',
     ''duration_s'', ''description'', ''latitude'', ''longitude'', ''date_posted_str'']"
  by (simp add: cleaned_columns_def new_label_def canon_header_def rename_header_def text_defs)

lemma rename_columns_cleaned:
  assumes "columns d = cleaned_columns"
  shows "columns (rename_columns d) = [''datetime'', ''date'', ''city'', ''state'', ''country'', ''shape'',
     ''duration_s'', ''description'', ''latitude'', ''longitude'', ''date_posted_str'']"
    and "rows (rename_columns d) = map (\<lambda>(i, r). (i, relabel_cleaned r)) (rows d)"
proof -
  show "columns (rename_columns d) = [''datetime'', ''date'', ''city'', ''state'', ''country'', ''shape'',
     ''duration_s'', ''description'', ''latitude'', ''longitude'', ''date_posted_str'']"
    by (simp add: rename_columns_simps assms cleaned_labels)
  have n: "new_label ''datetime'' = ''datetime''" "new_label ''date'' = ''date''"
    "new_label ''city'' = ''city''" "new_label ''state'' = ''state''"
    "new_label ''country'' = ''country''" "new_label ''shape'' = ''shape''"
    "new_label ''duration_s'' = ''duration_s''" "new_label ''description'' = ''description''"
    "new_label ''latitude'' = ''latitude''" "new_label ''longitude'' = ''longitude''"
    "new_label ''date_posted'' = ''date_posted_str''"
    using cleaned_labels by (simp_all add: cleaned_columns_def)
  have "(case find (\<lambda>h. new_label h = k) cleaned_columns of Some h \<Rightarrow> r h | None \<Rightarrow> Null) =
          relabel_cleaned r k" for r :: row and k
    by (auto simp: cleaned_columns_def n relabel_cleaned_def)
  then show "rows (rename_columns d) = map (\<lambda>(i, r). (i, relabel_cleaned r)) (rows d)"
    by (simp add: rename_columns_simps assms)
qed

lemma to_numeric_idem: "to_numeric P (to_numeric P c) = to_numeric P c"
  by (auto simp: to_numeric_def split: cell.splits option.splits)

lemma to_datetime_Null: "to_datetime P col Null = Null"
  by (simp add: to_datetime_def)

lemma clean_shape_Str_or_Null: "clean_shape c = Null \<or> (\<exists>s. clean_shape c = Str s)"
  by (auto simp: clean_shape_def fillna_def str_apply_def split: cell.splits)

lemma renormalize_row:
  assumes sh: "clean_shape (r ''shape'') \<noteq> Null"
    and tr: "\<forall>d. clean_description P (r ''description'') = Str d \<longrightarrow> strip d = d"
  shows "restrict_row cleaned_columns (norm_row P col' (Some pc)
           (relabel_cleaned (restrict_row cleaned_columns (norm_row P col pcol r)))) =
         restrict_row cleaned_columns (norm_row P col pcol r)"
proof -
  from sh clean_shape_Str_or_Null[of "r ''shape''"] obtain s where
    "clean_shape (r ''shape'') = Str s" by auto
  from clean_shape_settled[OF this] this
  have s: "clean_shape (clean_shape (r ''shape'')) = clean_shape (r ''shape'')" by simp
  obtain d where d: "clean_description P (r ''description'') = Str d"
    by (simp add: clean_description_Str)
  with tr have "strip d = d" by simp
  from clean_description_settled[OF d this] d
  have c: "clean_description P (clean_description P (r ''description'')) =
             clean_description P (r ''description'')" by simp
  have p: "to_datetime P pc (case pcol of None \<Rightarrow> Null
             | Some p \<Rightarrow> to_datetime P p (r ''date_posted_str'')) =
           (case pcol of None \<Rightarrow> Null | Some p \<Rightarrow> to_datetime P p (r ''date_posted_str''))"
    by (cases pcol) (simp_all add: to_datetime_Null to_datetime_settled)
  show ?thesis
    by (rule ext)
       (simp add: restrict_row_def cleaned_columns_def norm_row_def relabel_cleaned_def
          to_datetime_settled to_numeric_idem clean_duration_settled s c p)
qed

lemma renormalize_valid:
  assumes "row_valid P col r"
  shows "row_valid P col' (relabel_cleaned (restrict_row cleaned_columns (norm_row P col pcol r)))"
  using assms
  by (simp add: row_valid_def relabel_cleaned_def restrict_row_def cleaned_columns_def norm_row_def
      to_datetime_settled to_numeric_idem)

lemma clean_data_columns: "clean_data P g df = Inr out \<Longrightarrow> columns out = cleaned_columns"
  by (auto simp: clean_data_eq_Inr)

lemma clean_data_distinct_keys:
  assumes "clean_data P g df = Inr out"
  shows "distinct (map (\<lambda>(i, r). map r dedup_key) (rows out))"
proof -
  from assms[unfolded clean_data_eq_Inr] obtain pre :: dataframe where
    "out = \<lparr>columns = cleaned_columns,
            rows = map (\<lambda>(i, r). (i, restrict_row cleaned_columns r))
                     (drop_seen [] (\<lambda>(i, r). map r dedup_key) (rows pre))\<rparr>"
    by blast
  then have out: "rows out = map (\<lambda>(i, r). (i, restrict_row cleaned_columns r))
                         (drop_seen [] (\<lambda>(i, r). map r dedup_key) (rows pre))"
    by simp
  have k: "map (restrict_row cleaned_columns r) dedup_key = map r dedup_key" for r
    by (simp add: dedup_key_def restricted_cells)
  have "map (\<lambda>(i, r). map r dedup_key) (rows out) =
        map (\<lambda>(i, r). map r dedup_key) (drop_seen [] (\<lambda>(i, r). map r dedup_key) (rows pre))"
    by (simp add: out comp_def case_prod_unfold k)
  then show ?thesis
    using drop_seen_distinct[of "\<lambda>(i, r). map r dedup_key" "[]" "rows pre"] by simp
qed

text \<open>
  Claim C2, as amended. When every description of the output is free of white space at
  both ends and every shape of the output is a text, a second pass over the output, with
  the output taken as the raw input, returns the output itself: no row is dropped and no
  cell changes, \<open>date_posted\<close> included.
\<close>

theorem second_pass_identity:
  assumes first: "clean_data P g df = Inr out"
    and trimmed: "\<forall>(i, r) \<in> set (rows out). \<forall>d. r ''description'' = Str d \<longrightarrow> strip d = d"
    and shapes: "\<forall>(i, r) \<in> set (rows out). r ''shape'' \<noteq> Null"
  shows "clean_data P (Some g') out = Inr out"
proof -
  let ?R = "rename_columns out"
  let ?col = "column ?R ''datetime''"
  let ?pcol = "posted_column P ?R"
  let ?N = "\<lambda>r. restrict_row cleaned_columns (norm_row P ?col ?pcol r)"
  have cols: "columns out = cleaned_columns" by (rule clean_data_columns[OF first])
  note R = rename_columns_cleaned[OF cols]
  have "set needed_columns \<subseteq> set (columns ?R)"
    by (simp add: R needed_columns_def)
  from clean_data_total[OF this] obtain out2 where
    second: "clean_data P (Some g') out = Inr out2" by blast
  obtain pc where pc: "?pcol = Some pc" by (simp add: posted_column_def R)
  have row: "?N (relabel_cleaned r') = r' \<and> row_valid P ?col (relabel_cleaned r')"
    if "(i, r') \<in> set (rows out)" for i r'
  proof -
    from clean_data_provenance[OF first that] obtain r where
      v: "row_valid P (column (rename_columns df) ''datetime'') r"
      and r': "r' = restrict_row cleaned_columns
                    (norm_row P (column (rename_columns df) ''datetime'')
                       (posted_column P (rename_columns df)) r)"
      by blast
    from shapes that have "r' ''shape'' \<noteq> Null" by auto
    then have sh: "clean_shape (r ''shape'') \<noteq> Null"
      by (simp add: r' restricted_cells norm_row_apply)
    from trimmed that have "\<forall>d. r' ''description'' = Str d \<longrightarrow> strip d = d" by auto
    then have tr: "\<forall>d. clean_description P (r ''description'') = Str d \<longrightarrow> strip d = d"
      by (simp add: r' restricted_cells norm_row_apply)
    show ?thesis
      unfolding pc r' using renormalize_row[OF sh tr] renormalize_valid[OF v] by simp
  qed
  have valid: "valid_rows P ?R = rows ?R"
    unfolding valid_rows_def by (rule filter_True) (auto simp: R(2) dest: row)
  have keys: "map (\<lambda>(i, r). map (norm_row P ?col ?pcol r) dedup_key) (rows ?R) =
              map (\<lambda>(i, r). map r dedup_key) (rows out)"
  proof -
    have "map (norm_row P ?col ?pcol (relabel_cleaned r')) dedup_key = map r' dedup_key"
      if "(i, r') \<in> set (rows out)" for i r'
    proof -
      from row[OF that] have e: "?N (relabel_cleaned r') = r'" by simp
      have "norm_row P ?col ?pcol (relabel_cleaned r') k = r' k"
        if "k \<in> set cleaned_columns" for k
        using fun_cong[OF e, of k] that by (simp add: restrict_row_def)
      then show ?thesis by (simp add: dedup_key_def cleaned_columns_def)
    qed
    then show ?thesis by (auto simp: R(2) comp_def case_prod_unfold)
  qed
  have all: "drop_seen [] (\<lambda>(i, r). map (norm_row P ?col ?pcol r) dedup_key) (rows ?R) = rows ?R"
    by (rule drop_seen_all) (simp_all add: keys clean_data_distinct_keys[OF first])
  have "rows out2 = map (\<lambda>(i, r). (i, ?N r)) (rows ?R)"
    unfolding clean_data_rows[OF second] valid all ..
  also have "\<dots> = map (\<lambda>(i, r'). (i, ?N (relabel_cleaned r'))) (rows out)"
    by (simp add: R(2) comp_def case_prod_unfold)
  also have "\<dots> = rows out"
    by (rule map_idI) (auto dest: row)
  finally have "rows out2 = rows out" .
  moreover have "columns out2 = columns out"
    by (simp add: cols clean_data_columns[OF second])
  ultimately have "out2 = out" by simp
  with second show ?thesis by simp
qed

lemma twin_rows_text:
  "cells [''description'', ''shape''] (clean_data ex_ext (Some twin_rows) twin_rows) =
     Inr [(0, [Str ''Two lights, moving fast!'', Str ''cylinder''])]"
  unfolding nuforc_cells[of twin_rows, OF twin_rows_def[THEN arg_cong[where f=columns], simplified]]
  by (simp add: twin_rows_def nuforc_eval)

theorem second_pass_identity_witness:
  "\<exists>out. clean_data ex_ext (Some twin_rows) twin_rows = Inr out \<and>
     map fst (rows out) = [0] \<and>
     (\<forall>(i, r) \<in> set (rows out). \<forall>d. r ''description'' = Str d \<longrightarrow> strip d = d) \<and>
     (\<forall>(i, r) \<in> set (rows out). r ''shape'' \<noteq> Null) \<and>
     clean_data ex_ext (Some twin_rows) out = Inr out"
proof -
  from cells_Inr[OF twin_rows_text] obtain out where
    o: "clean_data ex_ext (Some twin_rows) twin_rows = Inr out"
    and i: "map fst (rows out) = [0]"
    and c: "map (\<lambda>(i, r). map r [''description'', ''shape'']) (rows out) =
              [[Str ''Two lights, moving fast!'', Str ''cylinder'']]" by auto
  from i obtain x where x: "rows out = [x]" by (auto simp: map_eq_Cons_conv)
  from c have d: "snd x ''description'' = Str ''Two lights, moving fast!''"
    and h: "snd x ''shape'' = Str ''cylinder''"
    by (simp_all add: x case_prod_unfold)
  have e: "strip ''Two lights, moving fast!'' = ''Two lights, moving fast!''"
    by (simp add: text_defs)
  have t: "\<forall>(i, r) \<in> set (rows out). \<forall>d. r ''description'' = Str d \<longrightarrow> strip d = d"
    by (simp add: x case_prod_unfold d e)
  have s: "\<forall>(i, r) \<in> set (rows out). r ''shape'' \<noteq> Null"
    by (simp add: x case_prod_unfold h)
  have "clean_data ex_ext (Some twin_rows) out = Inr out"
    by (rule second_pass_identity[OF o t s])
  with o i t s show ?thesis
    by (intro exI[of _ out] conjI)
qed

lemma rows_eq_from_cells:
  assumes "map (\<lambda>(i, r). (i, map r names)) xs = map (\<lambda>(i, r). (i, map r names)) ys"
    and "\<forall>(i, r) \<in> set xs. \<forall>k. k \<notin> set names \<longrightarrow> r k = Null"
    and "\<forall>(i, r) \<in> set ys. \<forall>k. k \<notin> set names \<longrightarrow> r k = (Null :: cell)"
  shows "xs = (ys :: (nat \<times> row) list)"
  using assms
proof (induction xs arbitrary: ys)
  case Nil
  then show ?case by simp
next
  case (Cons x xs)
  from Cons.prems(1) obtain y ys' where ys: "ys = y # ys'" by (cases ys) auto
  with Cons.prems have i: "fst x = fst y" and m: "map (snd x) names = map (snd y) names"
    and t: "map (\<lambda>(i, r). (i, map r names)) xs = map (\<lambda>(i, r). (i, map r names)) ys'"
    by (auto simp: case_prod_unfold)
  have "snd x k = snd y k" for k
  proof (cases "k \<in> set names")
    case True
    with m show ?thesis by (simp add: map_eq_conv)
  next
    case False
    with Cons.prems(2,3) ys show ?thesis by (auto simp: case_prod_unfold)
  qed
  then have "snd x = snd y" by (rule ext)
  with i have "x = y" by (simp add: prod_eq_iff)
  moreover have "xs = ys'"
    using Cons.prems(2,3) ys by (intro Cons.IH[OF t]) auto
  ultimately show ?case using ys by simp
qed

lemma cleaned_label_facts:
    "new_label ''datetime'' = ''datetime''" "new_label ''date'' = ''date''"
    "new_label ''city'' = ''city''" "new_label ''state'' = ''state''"
    "new_label ''country'' = ''country''" "new_label ''shape'' = ''shape''"
    "new_label ''duration_s'' = ''duration_s''" "new_label ''description'' = ''description''"
    "new_label ''latitude'' = ''latitude''" "new_label ''longitude'' = ''longitude''"
    "new_label ''date_posted'' = ''date_posted_str''"
  using cleaned_labels by (simp_all add: cleaned_columns_def)

lemma trim_rows_all_cells:
  "cells cleaned_columns (clean_data ex_ext (Some trim_rows) trim_rows) =
     cells cleaned_columns (Inr trimmed_once)"
  unfolding nuforc_cells[of trim_rows, OF trim_rows_def[THEN arg_cong[where f=columns], simplified]]
  by (simp add: trim_rows_def nuforc_eval trimmed_once_def cleaned_row_def cells_def)

lemma trim_rows_first_pass: "clean_data ex_ext (Some trim_rows) trim_rows = Inr trimmed_once"
proof -
  have c: "cells cleaned_columns (clean_data ex_ext (Some trim_rows) trim_rows) =
        Inr (map (\<lambda>(i, r). (i, map r cleaned_columns)) (rows trimmed_once))"
    by (subst trim_rows_all_cells) (simp add: cells_def)
  then obtain out where o: "clean_data ex_ext (Some trim_rows) trim_rows = Inr out"
    by (cases "clean_data ex_ext (Some trim_rows) trim_rows") (simp_all add: cells_def)
  from c have m: "map (\<lambda>(i, r). (i, map r cleaned_columns)) (rows out) =
        map (\<lambda>(i, r). (i, map r cleaned_columns)) (rows trimmed_once)"
    by (simp add: o cells_def)
  have a: "\<forall>(i, r) \<in> set (rows out). \<forall>k. k \<notin> set cleaned_columns \<longrightarrow> r k = Null"
    unfolding clean_data_rows[OF o] by (auto simp: restrict_row_def)
  have b: "\<forall>(i, r) \<in> set (rows trimmed_once). \<forall>k. k \<notin> set cleaned_columns \<longrightarrow> r k = Null"
    by (simp add: trimmed_once_def cleaned_row_def row_of_def cleaned_columns_def)
  have "rows out = rows trimmed_once" by (rule rows_eq_from_cells[OF m a b])
  moreover have "columns out = columns trimmed_once"
    by (simp add: clean_data_columns[OF o] trimmed_once_def)
  ultimately have "out = trimmed_once" by simp
  with o show ?thesis by simp
qed

lemma trimmed_once_second_pass:
  "cells [''description''] (clean_data ex_ext (Some trim_rows) trimmed_once) = Inr [(0, [Str ''a''])]"
proof -
  have n: "set needed_columns \<subseteq> set (columns (rename_columns trimmed_once))"
    by (simp add: rename_columns_simps trimmed_once_def cleaned_labels needed_columns_def)
  show ?thesis
    unfolding clean_data_cells[OF n]
    by (simp add: trimmed_once_def cleaned_row_def cleaned_label_facts ex_ext_def eval_defs text_defs)
qed

text \<open>
  Claim C2 as stated fails. Line 41 trims a description before it removes characters, so
  the removal can leave white space at an end: \<open>a @\<close> becomes \<open>a\<close> followed by a space. A
  second pass trims it, which changes the cell, and the record then has the key of the
  record whose description is \<open>a\<close>, so the second pass drops a row.
\<close>

theorem second_pass_counterexample:
  "clean_data ex_ext (Some trim_rows) trim_rows = Inr trimmed_once \<and>
   cells [''description''] (Inr trimmed_once) = Inr [(0, [Str ''a '']), (1, [Str ''a''])] \<and>
   cells [''description''] (clean_data ex_ext (Some trim_rows) trimmed_once) = Inr [(0, [Str ''a''])]"
  using trim_rows_first_pass trimmed_once_second_pass
  by (simp add: cells_def trimmed_once_def cleaned_row_def row_of_def)

text \<open>
  Claim C3 asks for the entity of the scenario to be decoded. The program does not decode
  it: line 41 has removed \<open>&\<close>, \<open>#\<close> and \<open>;\<close> before line 42 looks for \<open>&#44\<close>, so the record
  of the output holds \<open>Saw a light44 bright!\<close>.
\<close>

theorem entity_not_decoded:
  "cells [''description''] (clean_data ex_ext (Some entity_rows) entity_rows) =
     Inr [(0, [Str ''Saw a light44 bright!''])] \<and>
   clean_description ex_ext (Str ''Saw a light&#44; bright!'') = Str ''Saw a light44 bright!'' \<and>
   clean_description ex_ext (Str ''Saw a light&#44; bright!'') \<noteq> Str ''Saw a light, bright!''"
proof -
  have "cells [''description''] (clean_data ex_ext (Some entity_rows) entity_rows) =
     Inr [(0, [Str ''Saw a light44 bright!''])]"
    unfolding nuforc_cells[of entity_rows, OF entity_rows_def[THEN arg_cong[where f=columns], simplified]]
    by (simp add: entity_rows_def nuforc_eval)
  moreover have "clean_description ex_ext (Str ''Saw a light&#44; bright!'') = Str ''Saw a light44 bright!''"
    by (simp add: clean_description_def decode_entities_def str_apply_def strip_markup_def
      to_text_def fillna_def text_defs)
  ultimately show ?thesis by simp
qed

lemma other_header_KeyError:
  "clean_data P g other_header = Inl (KeyError [''datetime''])"
  by (simp add: clean_data_def normalize_steps_def stage_datetime_def require_def
      rename_columns_simps other_header_def new_label_def canon_header_def rename_header_def text_defs)




lemma first_of_key_cong:
  assumes "\<And>x y. k1 x = k1 y \<longleftrightarrow> k2 x = k2 y"
  shows "first_of_key k1 xs = first_of_key k2 xs"
proof -
  have "k1 x \<in> k1 ` S \<longleftrightarrow> k2 x \<in> k2 ` S" for x S
    using assms by (auto simp: image_iff)
  then show ?thesis by (simp add: first_of_key_def)
qed

lemma distinct_map_cong:
  assumes "\<And>x y. k1 x = k1 y \<longleftrightarrow> k2 x = k2 y"
  shows "distinct (map k1 xs) \<longleftrightarrow> distinct (map k2 xs)"
proof (induction xs)
  case Nil
  show ?case by simp
next
  case (Cons x xs)
  have "k1 x \<in> k1 ` set xs \<longleftrightarrow> k2 x \<in> k2 ` set xs"
    using assms by (auto simp: image_iff)
  with Cons show ?case by simp
qed

lemma dedup_key_tuple:
  "(case x of (i, r) \<Rightarrow> map r dedup_key) = (case y of (i, r) \<Rightarrow> map r dedup_key) \<longleftrightarrow>
   (case x of (i, r) \<Rightarrow> (r ''datetime'', r ''latitude'', r ''longitude'', r ''description'')) =
   (case y of (i, r) \<Rightarrow> (r ''datetime'', r ''latitude'', r ''longitude'', r ''description''))"
  for x y :: "nat \<times> row"
  by (simp add: dedup_key_def case_prod_unfold)

text \<open>
  Claim C6. The removal of duplicates works on the frame that lines 19 to 51 produce, so
  on the parsed timestamp, the numeric coordinates and the sanitized description: the
  output holds, in order, the rows of that frame that are the first with their tuple
  \<open>(datetime, latitude, longitude, description)\<close>, and no two records of the output share
  this tuple. In the witness two rows agree on the tuple and differ in city, shape and
  duration; the first of them is the one that is left.
\<close>

theorem duplicates_removed_last:
  assumes "clean_data P g df = Inr out"
  shows "\<exists>pre. normalize_steps P df = Inr pre \<and>
           rows out = map (\<lambda>(i, r). (i, restrict_row cleaned_columns r))
                        (first_of_key (\<lambda>(i, r). (r ''datetime'', r ''latitude'', r ''longitude'',
                                                r ''description'')) (rows pre)) \<and>
           distinct (map (\<lambda>(i, r). (r ''datetime'', r ''latitude'', r ''longitude'',
                                    r ''description'')) (rows out))"
proof -
  from assms[unfolded clean_data_eq_Inr] obtain pre :: dataframe where
    pre: "normalize_steps P df = Inr pre"
    and "out = \<lparr>columns = cleaned_columns,
            rows = map (\<lambda>(i, r). (i, restrict_row cleaned_columns r))
                     (drop_seen [] (\<lambda>(i, r). map r dedup_key) (rows pre))\<rparr>"
    by blast
  then have out: "rows out = map (\<lambda>(i, r). (i, restrict_row cleaned_columns r))
                         (drop_seen [] (\<lambda>(i, r). map r dedup_key) (rows pre))"
    by simp
  have "first_of_key (\<lambda>(i, r). map r dedup_key) (rows pre) =
        first_of_key (\<lambda>(i, r). (r ''datetime'', r ''latitude'', r ''longitude'', r ''description''))
          (rows pre)"
    by (rule first_of_key_cong) (rule dedup_key_tuple)
  then have r: "rows out = map (\<lambda>(i, r). (i, restrict_row cleaned_columns r))
                        (first_of_key (\<lambda>(i, r). (r ''datetime'', r ''latitude'', r ''longitude'',
                                                r ''description'')) (rows pre))"
    by (simp add: out drop_seen_first_of_key)
  have "distinct (map (\<lambda>(i, r). (r ''datetime'', r ''latitude'', r ''longitude'',
                                    r ''description'')) (rows out)) \<longleftrightarrow>
        distinct (map (\<lambda>(i, r). map r dedup_key) (rows out))"
    by (rule distinct_map_cong) (rule dedup_key_tuple[symmetric])
  with clean_data_distinct_keys[OF assms] pre r show ?thesis by blast
qed

theorem duplicates_removed_last_witness:
  "\<exists>out pre. clean_data ex_ext (Some twin_rows) twin_rows = Inr out \<and>
     normalize_steps ex_ext twin_rows = Inr pre \<and>
     rows out = map (\<lambda>(i, r). (i, restrict_row cleaned_columns r))
                  (first_of_key (\<lambda>(i, r). (r ''datetime'', r ''latitude'', r ''longitude'',
                                          r ''description'')) (rows pre)) \<and>
     map fst (rows twin_rows) = [0, 1] \<and> map fst (rows out) = [0] \<and>
     map (\<lambda>(i, r). r ''city'') (rows out) = [Str ''san marcos'']"
proof -
  from cells_Inr[OF twin_rows_cells] obtain out where
    o: "clean_data ex_ext (Some twin_rows) twin_rows = Inr out"
    and i: "map fst (rows out) = [0]"
    and c: "map (\<lambda>(i, r). map r [''city'', ''description'']) (rows out) =
              [[Str ''san marcos'', Str ''Two lights, moving fast!'']]" by auto
  from i obtain x where x: "rows out = [x]" by (auto simp: map_eq_Cons_conv)
  from c have "map (\<lambda>(i, r). r ''city'') (rows out) = [Str ''san marcos'']"
    by (simp add: x case_prod_unfold)
  moreover from duplicates_removed_last[OF o] obtain pre where
    "normalize_steps ex_ext twin_rows = Inr pre"
    "rows out = map (\<lambda>(i, r). (i, restrict_row cleaned_columns r))
                  (first_of_key (\<lambda>(i, r). (r ''datetime'', r ''latitude'', r ''longitude'',
                                          r ''description'')) (rows pre))"
    by blast
  moreover have "map fst (rows twin_rows) = [0, 1]" by (simp add: twin_rows_def)
  ultimately show ?thesis using o i by (intro exI[of _ out] exI[of _ pre] conjI)
qed

text \<open>
  Claim C7, as amended. The run reads, cleans, writes the export file and then writes the
  table, and stops at the first step that raises, reporting the exception (a missing file
  through its own message). When reading or cleaning raises, the export file and the table
  are as they were. When writing the export file raises, the table is not written; when
  writing the table raises, the run ends in the world that this write has left of the
  world with the export file written: nothing is undone.
\<close>

theorem main_stops_at_first_failure:
  "(read_csv io = Inl e \<longrightarrow> main P io w = (w, report e)) \<and>
   (read_csv io = Inr raw \<and> clean_data P (Some raw) raw = Inl e \<longrightarrow>
      main P io w = (w, report e)) \<and>
   (read_csv io = Inr raw \<and> clean_data P (Some raw) raw = Inr cleaned \<and>
    to_csv io cleaned w = (w1, Some e) \<longrightarrow> main P io w = (w1, report e)) \<and>
   (read_csv io = Inr raw \<and> clean_data P (Some raw) raw = Inr cleaned \<and>
    to_csv io cleaned w = (w1, None) \<and> to_sql io cleaned w1 = (w2, Some e) \<longrightarrow>
      main P io w = (w2, report e)) \<and>
   (read_csv io = Inr raw \<and> clean_data P (Some raw) raw = Inr cleaned \<and>
    to_csv io cleaned w = (w1, None) \<and> to_sql io cleaned w1 = (w2, None) \<longrightarrow>
      main P io w = (w2, Completed)) \<and>
   report FileNotFoundError = NotFoundReported \<and>
   (e \<noteq> FileNotFoundError \<longrightarrow> report e = ErrorReported e)"
  by (simp add: main_def create_sqlite_db_def report_def)

theorem main_stops_at_first_failure_witness:
  "main ex_ext no_file_io empty_world = (empty_world, NotFoundReported) \<and>
   main ex_ext other_header_io empty_world = (empty_world, ErrorReported (KeyError [''datetime''])) \<and>
   (\<exists>out. clean_data ex_ext (Some twin_rows) twin_rows = Inr out \<and>
      main ex_ext disk_full_io empty_world =
        (empty_world, ErrorReported (OSError ''No space left on device'')) \<and>
      main ex_ext db_locked_io empty_world =
        (\<lparr>cleaned_csv = Some out, sightings = None\<rparr>, ErrorReported (OSError ''database is locked'')) \<and>
      main ex_ext working_io empty_world =
        (\<lparr>cleaned_csv = Some out, sightings = Some out\<rparr>, Completed))"
proof -
  have "columns twin_rows = nuforc_header" by (simp add: twin_rows_def)
  from clean_data_total[OF nuforc_needed[OF this]] obtain out where
    o: "clean_data ex_ext (Some twin_rows) twin_rows = Inr out" by blast
  have 1: "main ex_ext no_file_io empty_world = (empty_world, NotFoundReported)"
    using main_stops_at_first_failure[where io = no_file_io and e = FileNotFoundError
        and P = ex_ext and w = empty_world]
    by (simp add: no_file_io_def)
  have 2: "main ex_ext other_header_io empty_world =
             (empty_world, ErrorReported (KeyError [''datetime'']))"
    using main_stops_at_first_failure[where io = other_header_io and e = "KeyError [''datetime'']"
        and P = ex_ext and w = empty_world and raw = other_header]
    by (simp add: other_header_io_def other_header_KeyError)
  have 3: "main ex_ext disk_full_io empty_world =
        (empty_world, ErrorReported (OSError ''No space left on device''))"
    using main_stops_at_first_failure[where io = disk_full_io
        and e = "OSError ''No space left on device''"
        and P = ex_ext and w = empty_world and raw = twin_rows and cleaned = out
        and ?w1.0 = empty_world] o
    by (simp add: disk_full_io_def)
  have 4: "main ex_ext db_locked_io empty_world =
        (\<lparr>cleaned_csv = Some out, sightings = None\<rparr>, ErrorReported (OSError ''database is locked''))"
    using main_stops_at_first_failure[where io = db_locked_io
        and e = "OSError ''database is locked''"
        and P = ex_ext and w = empty_world and raw = twin_rows and cleaned = out
        and ?w1.0 = "\<lparr>cleaned_csv = Some out, sightings = None\<rparr>"
        and ?w2.0 = "\<lparr>cleaned_csv = Some out, sightings = None\<rparr>"] o
    by (simp add: db_locked_io_def empty_world_def)
  have 5: "main ex_ext working_io empty_world =
        (\<lparr>cleaned_csv = Some out, sightings = Some out\<rparr>, Completed)"
    using main_stops_at_first_failure[where io = working_io
        and P = ex_ext and w = empty_world and raw = twin_rows and cleaned = out
        and ?w1.0 = "\<lparr>cleaned_csv = Some out, sightings = None\<rparr>"
        and ?w2.0 = "\<lparr>cleaned_csv = Some out, sightings = Some out\<rparr>"] o
    by (simp add: working_io_def empty_world_def)
  from 1 2 show ?thesis
  proof (intro conjI)
    from o 3 4 5 show "\<exists>out. clean_data ex_ext (Some twin_rows) twin_rows = Inr out \<and>
      main ex_ext disk_full_io empty_world =
        (empty_world, ErrorReported (OSError ''No space left on device'')) \<and>
      main ex_ext db_locked_io empty_world =
        (\<lparr>cleaned_csv = Some out, sightings = None\<rparr>, ErrorReported (OSError ''database is locked'')) \<and>
      main ex_ext working_io empty_world =
        (\<lparr>cleaned_csv = Some out, sightings = Some out\<rparr>, Completed)"
      by (intro exI[of _ out] conjI)
  qed
qed






end
